theory Spec2Isabelle
  imports Main
begin

section \<open>Python values used by solution.py\<close>

text \<open>
  Exceptions are values. Nothing in solution.py catches one, so the first error ends the
  call that meets it. \<open>OutOfRange\<close> stands for what \<open>datetime.fromtimestamp\<close> raises for
  an instant outside the years 1..9999 (ValueError, OverflowError or OSError, by distance
  and platform).
\<close>

datatype error = URLError | JSONDecodeError | KeyError | IndexError | OutOfRange

text \<open>
  A Python \<open>str\<close> is a \<open>string\<close>; one \<open>char\<close> stands for one code point below 256.
  \<open>isspace\<close> lists the code points below 256 for which \<open>str.isspace\<close> holds: tab,
  line feed, vertical tab, form feed, carriage return, the separators 0x1C..0x1F, space,
  next line (0x85) and no-break space (0xA0).
\<close>

definition isspace :: "char \<Rightarrow> bool" where
  "isspace c = (of_char c \<in> set [9, 10, 11, 12, 13, 28, 29, 30, 31, 32, 133, 160 :: nat])"

text \<open>\<open>s.strip()\<close>: whitespace removed at both ends.\<close>

definition strip :: "string \<Rightarrow> string" where
  "strip s = rev (dropWhile isspace (rev (dropWhile isspace s)))"

text \<open>
  \<open>s.split(sep)\<close> for a separator of one character: the pieces between the
  occurrences of \<open>sep\<close>, empty pieces kept, so the result has one element more than
  \<open>s\<close> has separators. \<open>split_from\<close> scans the text with the piece read so far.
\<close>

fun split_from :: "char \<Rightarrow> string \<Rightarrow> string \<Rightarrow> string list" where
  "split_from sep piece [] = [piece]"
| "split_from sep piece (c # cs) =
     (if c = sep then piece # split_from sep [] cs else split_from sep (piece @ [c]) cs)"

definition str_split :: "char \<Rightarrow> string \<Rightarrow> string list" where
  "str_split sep s = split_from sep [] s"

text \<open>\<open>xs[i]\<close> on a list: a negative index counts from the end, out of range raises.\<close>

definition getitem :: "'a list \<Rightarrow> int \<Rightarrow> error + 'a" where
  "getitem xs i =
     (let j = (if i < 0 then i + int (length xs) else i)
      in if 0 \<le> j \<and> j < int (length xs) then Inr (xs ! nat j) else Inl IndexError)"

text \<open>
  A JSON number is an \<open>int\<close> when its literal has neither fraction nor exponent and a
  \<open>float\<close> otherwise. A finite float is kept as what the shortest round-trip digit
  generation of \<open>repr\<close> returns for it: the sign, the decimal digits without trailing
  zeros and the position \<open>decpt\<close> of the decimal point, the value being
  \<open>0.d1d2... * 10 ^ decpt\<close>. \<open>json.load\<close> also reads \<open>Infinity\<close>, \<open>-Infinity\<close>
  and \<open>NaN\<close>.
\<close>

datatype pyfloat = Finite bool "nat list" int | Infinity bool | NaN

datatype number = PyInt int | PyFloat pyfloat

section \<open>The feed and the instance\<close>

text \<open>
  One entry of the feed's \<open>features\<close> array, with the fields solution.py reads:
  \<open>quakes['properties']['type']\<close> is \<open>type (properties quakes)\<close>, and so on.
  \<open>mag\<close> is a number or null (\<open>None\<close>), \<open>time\<close> is in milliseconds since the
  epoch, \<open>coordinates\<close> is the array longitude, latitude, depth.
\<close>

record properties =
  type :: string
  place :: string
  mag :: "number option"
  time :: int

record geometry =
  coordinates :: "number list"

record feature =
  properties :: properties
  geometry :: geometry

text \<open>The instance attributes of class \<open>Earthquakes\<close>.\<close>

record Earthquakes =
  usgs_url :: string
  usgs_regions_url :: string
  filter_values :: "string list"
  filter_type :: string
  filtered_earthquakes :: "feature list"
  filtered_earthquakes_log :: string

text \<open>
  The network, fixed for one run. \<open>features_at w url\<close> is the value of
  \<open>json.load(urlopen(url))['features']\<close>, and \<open>region_names_at w url\<close> lists
  \<open>f['properties']['name']\<close> for the elements \<open>f\<close> of
  \<open>json.load(urlopen(url))['neiccatalog']['features']\<close>; either is an error when the
  request, the parsing or a subscript fails.
\<close>

record world =
  features_at :: "string \<Rightarrow> error + feature list"
  region_names_at :: "string \<Rightarrow> error + string list"

text \<open>\<open>__init__\<close>: the two parameters are never read.\<close>

definition init :: "'a \<Rightarrow> 'b \<Rightarrow> Earthquakes" where
  "init filter_values_arg filter_type_arg =
     \<lparr>usgs_url = ''https://earthquake.usgs.gov/earthquakes/feed/v1.0/summary/all_week.geojson'',
      usgs_regions_url = ''https://earthquake.usgs.gov/ws/geoserve/regions.json'',
      filter_values = [''CA'', ''California''],
      filter_type = ''earthquake'',
      filtered_earthquakes = [],
      filtered_earthquakes_log = ''''\<rparr>"

section \<open>The text-match filter\<close>

text \<open>
  The condition of the list comprehension of \<open>_filter_earthquakes\<close>. \<open>and\<close> does not
  evaluate its right operand when the left one is false.
\<close>

definition text_match :: "Earthquakes \<Rightarrow> feature \<Rightarrow> error + bool" where
  "text_match self quakes =
     (if type (properties quakes) = filter_type self
      then (case getitem (str_split CHR '','' (place (properties quakes))) (- 1) of
              Inl e \<Rightarrow> Inl e
            | Inr region \<Rightarrow> Inr (strip region \<in> set (filter_values self)))
      else Inr False)"

text \<open>A list comprehension \<open>[x for x in xs if c(x)]\<close> whose condition may raise.\<close>

fun comprehension :: "('a \<Rightarrow> error + bool) \<Rightarrow> 'a list \<Rightarrow> error + 'a list" where
  "comprehension c [] = Inr []"
| "comprehension c (x # xs) =
     (case c x of
        Inl e \<Rightarrow> Inl e
      | Inr b \<Rightarrow>
          (case comprehension c xs of
             Inl e \<Rightarrow> Inl e
           | Inr ys \<Rightarrow> Inr (if b then x # ys else ys)))"

text \<open>
  \<open>_filter_earthquakes\<close>: the result and the instance after the call. The attribute
  \<open>filtered_earthquakes\<close> is assigned only when the comprehension has finished.
\<close>

definition filter_earthquakes :: "world \<Rightarrow> Earthquakes \<Rightarrow> (error + feature list) \<times> Earthquakes" where
  "filter_earthquakes w self =
     (case features_at w (usgs_url self) of
        Inl e \<Rightarrow> (Inl e, self)
      | Inr earthquakes \<Rightarrow>
          (case comprehension (text_match self) (rev earthquakes) of
             Inl e \<Rightarrow> (Inl e, self)
           | Inr matched \<Rightarrow> (Inr matched, self\<lparr>filtered_earthquakes := matched\<rparr>)))"

text \<open>
  The specification's wording of the region suffix, to compare with
  \<open>split(',')[-1]\<close>: the text after the last comma, which is the longest suffix without
  a comma.
\<close>

definition after_last_comma :: "string \<Rightarrow> string" where
  "after_last_comma s = rev (takeWhile (\<lambda>c. c \<noteq> CHR '','') (rev s))"

text \<open>
  The specification's wording of the test on the region: the text, trimmed of surrounding
  whitespace, is a member of the values. The text is a member with nothing but
  whitespace before it and after it, and the member itself neither begins nor ends with
  whitespace.
\<close>

definition trimmed_member :: "string \<Rightarrow> string list \<Rightarrow> bool" where
  "trimmed_member s members =
     (\<exists>lead region trail.
        s = lead @ region @ trail
      \<and> (\<forall>c \<in> set lead. isspace c) \<and> (\<forall>c \<in> set trail. isspace c)
      \<and> (region \<noteq> [] \<longrightarrow> \<not> isspace (hd region) \<and> \<not> isspace (last region))
      \<and> region \<in> set members)"

section \<open>Numbers as text\<close>

definition digit :: "nat \<Rightarrow> char" where
  "digit d = ''0123456789'' ! d"

text \<open>The decimal digits of a natural number, most significant first.\<close>

fun str_nat :: "nat \<Rightarrow> string" where
  "str_nat n = (if n < 10 then [digit n] else str_nat (n div 10) @ [digit (n mod 10)])"

declare str_nat.simps [simp del]

text \<open>\<open>str(i)\<close> for an \<open>int\<close>.\<close>

definition str_int :: "int \<Rightarrow> string" where
  "str_int i = (if i < 0 then CHR ''-'' # str_nat (nat (- i)) else str_nat (nat i))"

text \<open>The exponent of a float in \<open>repr\<close>: C's \<open>%+.02d\<close>, a sign and at least two digits.\<close>

definition exponent_text :: "int \<Rightarrow> string" where
  "exponent_text e =
     (if e < 0 then CHR ''-'' else CHR ''+'') #
     (if \<bar>e\<bar> < 10 then CHR ''0'' # str_nat (nat \<bar>e\<bar>) else str_nat (nat \<bar>e\<bar>))"

text \<open>
  \<open>repr(x)\<close> for a float, which is also \<open>str(x)\<close>: the layout CPython's
  \<open>format_float_short\<close> gives the shortest digits in its mode \<open>'r'\<close>. The exponent form
  is used when \<open>decpt \<le> -4\<close> or \<open>decpt > 16\<close>; otherwise the point is placed in the
  digits, padded with zeros, and \<open>.0\<close> is added to a value without fraction.
\<close>

definition repr_float :: "pyfloat \<Rightarrow> string" where
  "repr_float x =
     (case x of
        NaN \<Rightarrow> ''nan''
      | Infinity negative \<Rightarrow> (if negative then ''-inf'' else ''inf'')
      | Finite negative ds decpt \<Rightarrow>
          (if negative then ''-'' else []) @
          (let digits = map digit ds; n = int (length ds)
           in if decpt \<le> - 4 \<or> 16 < decpt
              then take 1 digits @ (if 1 < n then CHR ''.'' # drop 1 digits else []) @
                   CHR ''e'' # exponent_text (decpt - 1)
              else if decpt \<le> 0
              then ''0.'' @ replicate (nat (- decpt)) CHR ''0'' @ digits
              else if decpt < n
              then take (nat decpt) digits @ CHR ''.'' # drop (nat decpt) digits
              else digits @ replicate (nat (decpt - n)) CHR ''0'' @ ''.0''))"

definition str_number :: "number \<Rightarrow> string" where
  "str_number v = (case v of PyInt i \<Rightarrow> str_int i | PyFloat x \<Rightarrow> repr_float x)"

text \<open>\<open>str(v)\<close> for the value of \<open>mag\<close>: \<open>str(None)\<close> is the text \<open>None\<close>.\<close>

definition str_value :: "number option \<Rightarrow> string" where
  "str_value v = (case v of None \<Rightarrow> ''None'' | Some x \<Rightarrow> str_number x)"

section \<open>The region lookup\<close>

definition hex_digit :: "nat \<Rightarrow> char" where
  "hex_digit d = ''0123456789ABCDEF'' ! d"

definition percent :: "nat \<Rightarrow> string" where
  "percent b = [CHR ''%'', hex_digit (b div 16), hex_digit (b mod 16)]"

definition unreserved :: "char \<Rightarrow> bool" where
  "unreserved c =
     (c \<in> set ''ABCDEFGHIJKLMNOPQRSTUVWXYZabcdefghijklmnopqrstuvwxyz0123456789_.-~'')"

text \<open>
  \<open>urllib.parse.quote_plus\<close>: letters, digits and \<open>_.-~\<close> stay, a space becomes
  \<open>+\<close>, and any other code point becomes the bytes of its UTF-8 encoding, each as
  \<open>%XX\<close>.
\<close>

definition quote_plus_char :: "char \<Rightarrow> string" where
  "quote_plus_char c =
     (if unreserved c then [c]
      else if c = CHR '' '' then ''+''
      else (let n = of_char c :: nat
            in if n < 128 then percent n
               else percent (192 + n div 64) @ percent (128 + n mod 64)))"

definition quote_plus :: "string \<Rightarrow> string" where
  "quote_plus s = concat (map quote_plus_char s)"

fun join :: "string \<Rightarrow> string list \<Rightarrow> string" where
  "join sep [] = []"
| "join sep [x] = x"
| "join sep (x # y # ys) = x @ sep @ join sep (y # ys)"

text \<open>
  \<open>urllib.parse.urlencode\<close> of a dict, given as its items in insertion order with the
  values already passed through \<open>str\<close>.
\<close>

definition urlencode :: "(string \<times> string) list \<Rightarrow> string" where
  "urlencode query = join ''&'' (map (\<lambda>(k, v). quote_plus k @ ''='' @ quote_plus v) query)"

text \<open>
  \<open>_get_location\<close>: the name of the first region the service returns. The parameter
  \<open>geometry\<close> is written \<open>geometry_arg\<close>, apart from the field of that name.
\<close>

definition get_location :: "world \<Rightarrow> Earthquakes \<Rightarrow> number list \<Rightarrow> error + string" where
  "get_location w self geometry_arg =
     (case getitem geometry_arg 0 of
        Inl e \<Rightarrow> Inl e
      | Inr longitude \<Rightarrow>
          (case getitem geometry_arg 1 of
             Inl e \<Rightarrow> Inl e
           | Inr latitude \<Rightarrow>
               (let params = urlencode [(''longitude'', str_number longitude),
                                        (''latitude'', str_number latitude),
                                        (''type'', ''neiccatalog'')];
                    location_url = usgs_regions_url self @ ''?'' @ params
                in case region_names_at w location_url of
                     Inl e \<Rightarrow> Inl e
                   | Inr location \<Rightarrow> getitem location 0)))"

section \<open>The geocode filter\<close>

text \<open>
  The \<open>for\<close> loop of \<open>_filter_earthquakes_by_coordinates\<close>. The location is looked up
  for every entry, before its type is tested; an error leaves the entries appended so
  far in the list.
\<close>

fun coordinates_loop :: "world \<Rightarrow> feature list \<Rightarrow> Earthquakes \<Rightarrow> (error + unit) \<times> Earthquakes" where
  "coordinates_loop w [] self = (Inr (), self)"
| "coordinates_loop w (quakes # rest) self =
     (case get_location w self (coordinates (geometry quakes)) of
        Inl e \<Rightarrow> (Inl e, self)
      | Inr location \<Rightarrow>
          coordinates_loop w rest
            (if type (properties quakes) = filter_type self \<and> location \<in> set (filter_values self)
             then self\<lparr>filtered_earthquakes := filtered_earthquakes self @ [quakes]\<rparr>
             else self))"

definition filter_earthquakes_by_coordinates ::
    "world \<Rightarrow> Earthquakes \<Rightarrow> (error + feature list) \<times> Earthquakes" where
  "filter_earthquakes_by_coordinates w self =
     (case features_at w (usgs_url self) of
        Inl e \<Rightarrow> (Inl e, self)
      | Inr earthquakes \<Rightarrow>
          (case coordinates_loop w (rev earthquakes) self of
             (Inl e, self') \<Rightarrow> (Inl e, self')
           | (Inr u, self') \<Rightarrow> (Inr (filtered_earthquakes self'), self')))"

text \<open>
  The condition of that loop as a predicate, for the statements below: the lookup
  succeeds, the type is the configured one and the name is one of the filter values.
\<close>

definition geocode_match :: "world \<Rightarrow> Earthquakes \<Rightarrow> feature \<Rightarrow> bool" where
  "geocode_match w self quakes =
     (case get_location w self (coordinates (geometry quakes)) of
        Inl e \<Rightarrow> False
      | Inr location \<Rightarrow>
          type (properties quakes) = filter_type self \<and> location \<in> set (filter_values self))"

section \<open>The time conversion\<close>

definition DAYS_IN_MONTH :: "int list" where
  "DAYS_IN_MONTH = [- 1, 31, 28, 31, 30, 31, 30, 31, 31, 30, 31, 30, 31]"

definition DAYS_BEFORE_MONTH :: "int list" where
  "DAYS_BEFORE_MONTH = [- 1, 0, 31, 59, 90, 120, 151, 181, 212, 243, 273, 304, 334]"

text \<open>
  \<open>_ord2ymd\<close> of the standard library's datetime module: the proleptic Gregorian date
  of an ordinal, where 1 is 0001-01-01. The cycles of 400, 100 and 4 years have 146097,
  36524 and 1461 days.
\<close>

definition ord2ymd :: "int \<Rightarrow> int \<times> int \<times> int" where
  "ord2ymd ordinal =
     (let n = ordinal - 1;
          n400 = n div 146097; n = n mod 146097;
          n100 = n div 36524; n = n mod 36524;
          n4 = n div 1461; n = n mod 1461;
          n1 = n div 365; n = n mod 365;
          year = n400 * 400 + 1 + n100 * 100 + n4 * 4 + n1
      in if n1 = 4 \<or> n100 = 4 then (year - 1, 12, 31)
         else
           (let leapyear = (n1 = 3 \<and> (n4 \<noteq> 24 \<or> n100 = 3));
                month = (n + 50) div 32;
                preceding = DAYS_BEFORE_MONTH ! nat month + (if 2 < month \<and> leapyear then 1 else 0)
            in if n < preceding
               then (year, month - 1,
                     n - (preceding - (DAYS_IN_MONTH ! nat (month - 1)
                            + (if month - 1 = 2 \<and> leapyear then 1 else 0))) + 1)
               else (year, month, n - preceding + 1)))"

text \<open>
  The inverse direction in the same module, \<open>_ymd2ord\<close> with its helpers \<open>_is_leap\<close>,
  \<open>_days_before_year\<close>, \<open>_days_in_month\<close> and \<open>_days_before_month\<close>: the ordinal of a
  date. It says which day a date denotes.
\<close>

definition is_leap :: "int \<Rightarrow> bool" where
  "is_leap year = (year mod 4 = 0 \<and> (year mod 100 \<noteq> 0 \<or> year mod 400 = 0))"

definition days_before_year :: "int \<Rightarrow> int" where
  "days_before_year year = (let y = year - 1 in y * 365 + y div 4 - y div 100 + y div 400)"

definition days_in_month :: "int \<Rightarrow> int \<Rightarrow> int" where
  "days_in_month year month =
     (if month = 2 \<and> is_leap year then 29 else DAYS_IN_MONTH ! nat month)"

definition days_before_month :: "int \<Rightarrow> int \<Rightarrow> int" where
  "days_before_month year month =
     DAYS_BEFORE_MONTH ! nat month + (if 2 < month \<and> is_leap year then 1 else 0)"

definition ymd2ord :: "int \<Rightarrow> int \<Rightarrow> int \<Rightarrow> int" where
  "ymd2ord year month day = days_before_year year + days_before_month year month + day"

text \<open>
  \<open>gmtime\<close>: the UTC calendar fields year, month, day, hour, minute, second of a number
  of seconds since 1970-01-01T00:00:00, whose ordinal is 719163.
\<close>

definition gmtime :: "int \<Rightarrow> int \<times> int \<times> int \<times> int \<times> int \<times> int" where
  "gmtime seconds =
     (let (year, month, day) = ord2ymd (719163 + seconds div 86400);
          r = seconds mod 86400
      in (year, month, day, r div 3600, r mod 3600 div 60, r mod 60))"

definition zfill :: "nat \<Rightarrow> string \<Rightarrow> string" where
  "zfill width s = replicate (width - length s) CHR ''0'' @ s"

text \<open>
  \<open>strftime('%Y-%m-%dT%H:%M:%S%z')\<close> on a datetime whose tzinfo is \<open>timezone.utc\<close>,
  for which \<open>%z\<close> is \<open>+0000\<close>. \<open>%Y\<close> is the year as CPython prints it through the C
  library of Linux, without leading zeros: a year below 1000 has fewer than four digits.
  The other fields have two digits.
\<close>

definition strftime :: "int \<times> int \<times> int \<times> int \<times> int \<times> int \<Rightarrow> string" where
  "strftime t =
     (case t of (year, month, day, hour, minute, second) \<Rightarrow>
        str_int year @ ''-'' @ zfill 2 (str_int month) @ ''-'' @ zfill 2 (str_int day) @
        ''T'' @ zfill 2 (str_int hour) @ '':'' @ zfill 2 (str_int minute) @ '':'' @
        zfill 2 (str_int second) @ ''+0000'')"

text \<open>
  \<open>_convert_time\<close>. \<open>unix_time/1000\<close> is a float; \<open>fromtimestamp\<close> rounds it to
  microseconds and \<open>%S\<close> drops them, which leaves the whole seconds
  \<open>unix_time div 1000\<close> (rounded down) for every instant in the years 1..9999, the
  range of \<open>datetime\<close>. 3652059 is the ordinal of 9999-12-31.
\<close>

definition convert_time :: "int \<Rightarrow> error + string" where
  "convert_time unix_time =
     (let seconds = unix_time div 1000;
          ordinal = 719163 + seconds div 86400
      in if ordinal < 1 \<or> 3652059 < ordinal then Inl OutOfRange
         else Inr (strftime (gmtime seconds)))"

text \<open>
  For the statement about \<open>_convert_time\<close>: the text of six calendar fields, digit by
  digit, and the seconds since 1970-01-01T00:00:00 UTC that the fields denote. The year
  has as many digits as it needs, four from the year 1000 on, which gives the form
  \<open>YYYY-MM-DDTHH:MM:SS+0000\<close>.
\<close>

definition year_text :: "int \<Rightarrow> string" where
  "year_text year =
     (if year < 10 then [digit (nat year)]
      else if year < 100 then [digit (nat (year div 10)), digit (nat (year mod 10))]
      else if year < 1000
      then [digit (nat (year div 100)), digit (nat (year div 10 mod 10)), digit (nat (year mod 10))]
      else [digit (nat (year div 1000)), digit (nat (year div 100 mod 10)),
            digit (nat (year div 10 mod 10)), digit (nat (year mod 10))])"

definition utc_text :: "int \<Rightarrow> int \<Rightarrow> int \<Rightarrow> int \<Rightarrow> int \<Rightarrow> int \<Rightarrow> string" where
  "utc_text year month day hour minute second =
     year_text year @
     [CHR ''-'',
      digit (nat (month div 10)), digit (nat (month mod 10)), CHR ''-'',
      digit (nat (day div 10)), digit (nat (day mod 10)), CHR ''T'',
      digit (nat (hour div 10)), digit (nat (hour mod 10)), CHR '':'',
      digit (nat (minute div 10)), digit (nat (minute mod 10)), CHR '':'',
      digit (nat (second div 10)), digit (nat (second mod 10)),
      CHR ''+'', CHR ''0'', CHR ''0'', CHR ''0'', CHR ''0'']"

definition utc_seconds :: "int \<Rightarrow> int \<Rightarrow> int \<Rightarrow> int \<Rightarrow> int \<Rightarrow> int \<Rightarrow> int" where
  "utc_seconds year month day hour minute second =
     (ymd2ord year month day - ymd2ord 1970 1 1) * 86400 + hour * 3600 + minute * 60 + second"

section \<open>Printing\<close>

definition log_line :: "string \<Rightarrow> string \<Rightarrow> string \<Rightarrow> string" where
  "log_line time_text place_text magnitude =
     time_text @ '' | '' @ place_text @ '' | magnitude : '' @ magnitude"

text \<open>
  The \<open>for i in range(len(self.filtered_earthquakes))\<close> loop of \<open>log_earthquakes\<close>, over
  the indices. \<open>out\<close> is the text written to standard output so far; \<open>print\<close> ends its
  line with a line feed.
\<close>

fun log_loop :: "nat list \<Rightarrow> Earthquakes \<Rightarrow> string \<Rightarrow> (error + unit) \<times> Earthquakes \<times> string" where
  "log_loop [] self out = (Inr (), self, out)"
| "log_loop (i # rest) self out =
     (case getitem (filtered_earthquakes self) (int i) of
        Inl e \<Rightarrow> (Inl e, self, out)
      | Inr quakes \<Rightarrow>
          (case convert_time (time (properties quakes)) of
             Inl e \<Rightarrow> (Inl e, self, out)
           | Inr time_text \<Rightarrow>
               (let magnitude = str_value (mag (properties quakes));
                    line = log_line time_text (place (properties quakes)) magnitude
                in log_loop rest
                     (self\<lparr>filtered_earthquakes_log := filtered_earthquakes_log self @ line\<rparr>)
                     (out @ line @ [CHR 0x0A]))))"

text \<open>\<open>log_earthquakes\<close>: the geocode filter, then the loop.\<close>

definition log_earthquakes :: "world \<Rightarrow> Earthquakes \<Rightarrow> string \<Rightarrow> (error + unit) \<times> Earthquakes \<times> string" where
  "log_earthquakes w self out =
     (case filter_earthquakes_by_coordinates w self of
        (Inl e, self') \<Rightarrow> (Inl e, self', out)
      | (Inr r, self') \<Rightarrow> log_loop [0..<length (filtered_earthquakes self')] self' out)"

text \<open>The script: an instance, one call, standard output empty at the start.\<close>

definition main :: "world \<Rightarrow> (error + unit) \<times> Earthquakes \<times> string" where
  "main w = log_earthquakes w (init [''CA'', ''California''] ''earthquake'') []"

text \<open>
  For the statements below: whether the time of an entry converts, and the line
  \<open>log_earthquakes\<close> prints for an entry whose time does.
\<close>

definition converts :: "feature \<Rightarrow> bool" where
  "converts quakes =
     (case convert_time (time (properties quakes)) of Inl e \<Rightarrow> False | Inr time_text \<Rightarrow> True)"

definition entry_line :: "feature \<Rightarrow> string" where
  "entry_line quakes =
     (case convert_time (time (properties quakes)) of
        Inl e \<Rightarrow> []
      | Inr time_text \<Rightarrow>
          log_line time_text (place (properties quakes)) (str_value (mag (properties quakes))))"

section \<open>Example inputs\<close>

text \<open>A network that answers every request with the same feed and the same region names.\<close>

definition static_world :: "feature list \<Rightarrow> string list \<Rightarrow> world" where
  "static_world feed names =
     \<lparr>features_at = (\<lambda>url. Inr feed), region_names_at = (\<lambda>url. Inr names)\<rparr>"

text \<open>An entry of type earthquake at longitude -120.9, latitude 40.1, depth 7.\<close>

definition example_entry :: "string \<Rightarrow> number option \<Rightarrow> int \<Rightarrow> feature" where
  "example_entry place_text magnitude unix_time =
     \<lparr>properties = \<lparr>type = ''earthquake'', place = place_text, mag = magnitude, time = unix_time\<rparr>,
      geometry = \<lparr>coordinates = [PyFloat (Finite True [1, 2, 0, 9] 3),
                                 PyFloat (Finite False [4, 0, 1] 2), PyInt 7]\<rparr>\<rparr>"

text \<open>
  Two entries after the examples in the docstring of solution.py, at
  2017-07-13T20:43:37 and 2017-07-13T22:09:53 UTC, with the magnitudes 1 (an int) and
  2.76 (a float), and a feed that lists them newest first.
\<close>

definition greenville :: feature where
  "greenville = example_entry ''3km NW of Greenville, California'' (Some (PyInt 1)) 1499978617000"

definition ferndale :: feature where
  "ferndale = example_entry ''41km SW of Ferndale, California''
                (Some (PyFloat (Finite False [2, 7, 6] 1))) 1499983793000"

definition example_feed :: "feature list" where
  "example_feed = [ferndale, greenville]"

text \<open>
  A network whose region service knows one request only, the one for longitude -120.9
  and latitude 40.1.
\<close>

definition one_request_world :: "feature list \<Rightarrow> string list \<Rightarrow> world" where
  "one_request_world feed names =
     \<lparr>features_at = (\<lambda>url. Inr feed),
      region_names_at = (\<lambda>url.
        if url = ''https://earthquake.usgs.gov/ws/geoserve/regions.json?longitude=-120.9&latitude=40.1&type=neiccatalog''
        then Inr names else Inl URLError)\<rparr>"

section \<open>Strings and the text-match filter\<close>

lemma split_from_not_Nil: "split_from sep piece s \<noteq> []"
  by (induction s arbitrary: piece) auto

lemma split_from_no_sep: "sep \<notin> set s \<Longrightarrow> split_from sep piece s = [piece @ s]"
  by (induction s arbitrary: piece) auto

lemma split_from_append:
  "split_from sep piece (a @ sep # b) = split_from sep piece a @ split_from sep [] b"
  by (induction a arbitrary: piece) auto

lemma str_split_not_Nil: "str_split sep s \<noteq> []"
  by (simp add: str_split_def split_from_not_Nil)

lemma str_split_no_sep: "sep \<notin> set s \<Longrightarrow> str_split sep s = [s]"
  by (simp add: str_split_def split_from_no_sep)

lemma str_split_append:
  "str_split sep (a @ sep # b) = str_split sep a @ str_split sep b"
  by (simp add: str_split_def split_from_append)

lemma takeWhile_rev_suffix:
  "sep \<notin> set suf \<Longrightarrow>
   rev (takeWhile (\<lambda>c. c \<noteq> sep) (rev (pre @ sep # suf))) = suf"
proof -
  assume "sep \<notin> set suf"
  then have "takeWhile (\<lambda>c. c \<noteq> sep) (rev suf @ sep # rev pre) = rev suf"
    by (subst takeWhile_append2) auto
  then show ?thesis by simp
qed

lemma takeWhile_rev_all:
  "sep \<notin> set s \<Longrightarrow> rev (takeWhile (\<lambda>c. c \<noteq> sep) (rev s)) = s"
proof -
  assume "sep \<notin> set s"
  then have "\<forall>c \<in> set (rev s). c \<noteq> sep" by auto
  then have "takeWhile (\<lambda>c. c \<noteq> sep) (rev s) = rev s"
    by (simp only: takeWhile_eq_all_conv)
  then show ?thesis by (simp only: rev_rev_ident)
qed

lemma last_str_split: "last (str_split sep s) = rev (takeWhile (\<lambda>c. c \<noteq> sep) (rev s))"
proof (cases "sep \<in> set s")
  case False
  then show ?thesis by (simp add: str_split_no_sep takeWhile_rev_all)
next
  case True
  then obtain pre suf where s: "s = pre @ sep # suf" and suf: "sep \<notin> set suf"
    by (meson split_list_last)
  have "last (str_split sep s) = suf"
    using suf by (simp add: s str_split_append str_split_no_sep)
  then show ?thesis
    using takeWhile_rev_suffix [OF suf, of pre] s by simp
qed

lemma getitem_last: "xs \<noteq> [] \<Longrightarrow> getitem xs (- 1) = Inr (last xs)"
  by (cases xs rule: rev_cases) (auto simp: getitem_def Let_def nth_append)

lemma after_last_comma_suffix:
  "CHR '','' \<notin> set suf \<Longrightarrow> after_last_comma (pre @ CHR '','' # suf) = suf"
  unfolding after_last_comma_def by (rule takeWhile_rev_suffix)

lemma after_last_comma_no_comma:
  "CHR '','' \<notin> set s \<Longrightarrow> after_last_comma s = s"
  unfolding after_last_comma_def by (rule takeWhile_rev_all)

lemma strip_decomposition:
  "\<exists>lead trail.
      s = lead @ strip s @ trail
    \<and> (\<forall>c \<in> set lead. isspace c) \<and> (\<forall>c \<in> set trail. isspace c)
    \<and> (strip s \<noteq> [] \<longrightarrow> \<not> isspace (hd (strip s)) \<and> \<not> isspace (last (strip s)))"
proof -
  define u where "u = dropWhile isspace s"
  define lead where "lead = takeWhile isspace s"
  define trail where "trail = rev (takeWhile isspace (rev u))"
  have t: "strip s = rev (dropWhile isspace (rev u))"
    by (simp add: strip_def u_def)
  have s: "s = lead @ u"
    by (simp add: lead_def u_def)
  have "u = rev (takeWhile isspace (rev u) @ dropWhile isspace (rev u))"
    by (simp only: takeWhile_dropWhile_id rev_rev_ident)
  also have "\<dots> = strip s @ trail"
    by (simp only: rev_append t trail_def)
  finally have u: "u = strip s @ trail" .
  have lead: "\<forall>c \<in> set lead. isspace c"
    unfolding lead_def by (auto dest: set_takeWhileD)
  have trail: "\<forall>c \<in> set trail. isspace c"
    unfolding trail_def by (auto dest: set_takeWhileD)
  have ends: "\<not> isspace (hd (strip s)) \<and> \<not> isspace (last (strip s))" if ne: "strip s \<noteq> []"
  proof -
    from ne have d: "dropWhile isspace (rev u) \<noteq> []"
      by (simp add: t)
    then have "\<not> isspace (hd (dropWhile isspace (rev u)))"
      by (rule hd_dropWhile)
    then have l: "\<not> isspace (last (strip s))"
      using d by (simp add: t last_rev)
    from ne u have "u \<noteq> []" by auto
    then have "\<not> isspace (hd u)"
      unfolding u_def by (rule hd_dropWhile)
    moreover have "hd u = hd (strip s)"
      using ne by (subst u) simp
    ultimately show ?thesis using l by simp
  qed
  from s u lead trail ends show ?thesis
    by (intro exI [of _ lead] exI [of _ trail]) simp
qed

lemma strip_unique:
  assumes "s = lead @ t @ trail"
    and "\<forall>c \<in> set lead. isspace c" and "\<forall>c \<in> set trail. isspace c"
    and "t \<noteq> [] \<longrightarrow> \<not> isspace (hd t) \<and> \<not> isspace (last t)"
  shows "strip s = t"
proof (cases "t = []")
  case True
  with assms have "\<forall>c \<in> set s. isspace c" by auto
  then have none: "dropWhile isspace s = []" by (simp only: dropWhile_eq_Nil_conv)
  show ?thesis unfolding strip_def none using True by simp
next
  case False
  with assms(4) have h: "\<not> isspace (hd t)" and l: "\<not> isspace (last t)" by simp_all
  have "dropWhile isspace s = dropWhile isspace (t @ trail)"
    unfolding assms(1) using assms(2) by (intro dropWhile_append2) simp
  also have "\<dots> = t @ trail"
    using False h by (cases t) simp_all
  finally have d: "dropWhile isspace s = t @ trail" .
  have "dropWhile isspace (rev trail @ rev t) = dropWhile isspace (rev t)"
    using assms(3) by (intro dropWhile_append2) simp
  also have "\<dots> = rev t"
    using False l by (cases t rule: rev_cases) simp_all
  finally show ?thesis
    by (simp add: strip_def d)
qed

lemma strip_member:
  "(strip s \<in> set members) = trimmed_member s members"
proof
  assume m: "strip s \<in> set members"
  from strip_decomposition [of s] obtain lead trail where
    "s = lead @ strip s @ trail" "\<forall>c \<in> set lead. isspace c" "\<forall>c \<in> set trail. isspace c"
    "strip s \<noteq> [] \<longrightarrow> \<not> isspace (hd (strip s)) \<and> \<not> isspace (last (strip s))"
    by blast
  with m show "trimmed_member s members"
    unfolding trimmed_member_def by blast
next
  assume "trimmed_member s members"
  then obtain lead region trail where d: "s = lead @ region @ trail"
    "\<forall>c \<in> set lead. isspace c" "\<forall>c \<in> set trail. isspace c"
    "region \<noteq> [] \<longrightarrow> \<not> isspace (hd region) \<and> \<not> isspace (last region)"
    and m: "region \<in> set members"
    unfolding trimmed_member_def by blast
  from strip_unique [OF d] m show "strip s \<in> set members"
    by simp
qed

lemma text_match_region:
  "text_match self quakes =
     Inr (type (properties quakes) = filter_type self \<and>
          strip (after_last_comma (place (properties quakes))) \<in> set (filter_values self))"
  by (simp add: text_match_def getitem_last str_split_not_Nil last_str_split after_last_comma_def)

lemma comprehension_filter:
  "(\<And>x. c x = Inr (P x)) \<Longrightarrow> comprehension c xs = Inr (filter P xs)"
  by (induction xs) simp_all

lemma filter_earthquakes_result:
  assumes "features_at w (usgs_url self) = Inr feed"
  shows "filter_earthquakes w self =
     (let matched = filter (\<lambda>q. type (properties q) = filter_type self \<and>
                 strip (after_last_comma (place (properties q))) \<in> set (filter_values self))
              (rev feed)
      in (Inr matched, self\<lparr>filtered_earthquakes := matched\<rparr>))"
  using assms 
  by (simp add: filter_earthquakes_def Let_def comprehension_filter [where c = "text_match self", OF text_match_region])

text \<open>
  C1, amended: the text-match strategy accepts an entry exactly when its type is the
  configured one, \<open>earthquake\<close>, and the text after the last comma of its place, or the
  whole place when it has no comma, trimmed of surrounding whitespace, is \<open>CA\<close> or
  \<open>California\<close>. The result of \<open>_filter_earthquakes\<close> holds the accepted entries of
  the reversed feed, so every entry it keeps has the type \<open>earthquake\<close>.
\<close>

theorem text_match_accepts_by_type_and_region:
  assumes "features_at w (usgs_url self) = Inr feed"
    and "filter_type self = ''earthquake''"
    and "filter_values self = [''CA'', ''California'']"
  shows "(\<forall>quakes before region_text.
            place (properties quakes) = before @ CHR '','' # region_text \<and>
            CHR '','' \<notin> set region_text \<longrightarrow>
            text_match self quakes =
              Inr (type (properties quakes) = ''earthquake'' \<and>
                   trimmed_member region_text [''CA'', ''California'']))
       \<and> (\<forall>quakes. CHR '','' \<notin> set (place (properties quakes)) \<longrightarrow>
            text_match self quakes =
              Inr (type (properties quakes) = ''earthquake'' \<and>
                   trimmed_member (place (properties quakes)) [''CA'', ''California'']))
       \<and> fst (filter_earthquakes w self) =
            Inr (filter (\<lambda>quakes. text_match self quakes = Inr True) (rev feed))
       \<and> filtered_earthquakes (snd (filter_earthquakes w self)) =
            filter (\<lambda>quakes. text_match self quakes = Inr True) (rev feed)
       \<and> (\<forall>quakes \<in> set (filtered_earthquakes (snd (filter_earthquakes w self))).
            type (properties quakes) = ''earthquake'')"
proof -
  have one: "text_match self quakes =
            Inr (type (properties quakes) = ''earthquake'' \<and>
                 trimmed_member (after_last_comma (place (properties quakes)))
                   [''CA'', ''California''])"
    for quakes
    using assms(2,3) by (simp add: text_match_region strip_member [symmetric])
  have with_comma: "text_match self quakes =
              Inr (type (properties quakes) = ''earthquake'' \<and>
                   trimmed_member region_text [''CA'', ''California''])"
    if "place (properties quakes) = before @ CHR '','' # region_text \<and>
        CHR '','' \<notin> set region_text" for quakes before region_text
    using that one [of quakes] by (simp add: after_last_comma_suffix)
  have without_comma: "text_match self quakes =
              Inr (type (properties quakes) = ''earthquake'' \<and>
                   trimmed_member (place (properties quakes)) [''CA'', ''California''])"
    if "CHR '','' \<notin> set (place (properties quakes))" for quakes
    using that one [of quakes] by (simp add: after_last_comma_no_comma)
  have accepted: "(text_match self quakes = Inr True) =
      (type (properties quakes) = filter_type self \<and>
       strip (after_last_comma (place (properties quakes))) \<in> set (filter_values self))"
    for quakes
    by (simp add: text_match_region)
  have all: "filter_earthquakes w self =
     (Inr (filter (\<lambda>quakes. text_match self quakes = Inr True) (rev feed)),
      self\<lparr>filtered_earthquakes :=
             filter (\<lambda>quakes. text_match self quakes = Inr True) (rev feed)\<rparr>)"
    unfolding accepted using filter_earthquakes_result [OF assms(1)] by (simp add: Let_def)
  have typed: "type (properties quakes) = ''earthquake''"
    if "quakes \<in> set (filter (\<lambda>quakes. text_match self quakes = Inr True) (rev feed))"
    for quakes
    using that assms(2) by (simp add: accepted)
  show ?thesis
    unfolding all fst_conv snd_conv using with_comma without_comma typed by simp
qed

theorem text_match_accepts_by_type_and_region_witness:
  "features_at
       (static_world [example_entry ''Pacific-Antarctic Ridge'' None 1500000060000,
                      example_entry ''3km NW of Greenville, California'' (Some (PyInt 1)) 1500000000000] [])
       (usgs_url (init [''CA'', ''California''] ''earthquake''))
     = Inr [example_entry ''Pacific-Antarctic Ridge'' None 1500000060000,
            example_entry ''3km NW of Greenville, California'' (Some (PyInt 1)) 1500000000000]
   \<and> filter_type (init [''CA'', ''California''] ''earthquake'') = ''earthquake''
   \<and> filter_values (init [''CA'', ''California''] ''earthquake'') = [''CA'', ''California'']
   \<and> place (properties
        (example_entry ''3km NW of Greenville, California'' (Some (PyInt 1)) 1500000000000))
       = ''3km NW of Greenville'' @ CHR '','' # '' California''
   \<and> CHR '','' \<notin> set '' California''
   \<and> trimmed_member '' California'' [''CA'', ''California'']
   \<and> CHR '','' \<notin> set (place (properties
        (example_entry ''Pacific-Antarctic Ridge'' None 1500000060000)))
   \<and> \<not> trimmed_member ''Pacific-Antarctic Ridge'' [''CA'', ''California'']
   \<and> fst (filter_earthquakes
          (static_world [example_entry ''Pacific-Antarctic Ridge'' None 1500000060000,
                         example_entry ''3km NW of Greenville, California'' (Some (PyInt 1)) 1500000000000] [])
          (init [''CA'', ''California''] ''earthquake''))
     = Inr [example_entry ''3km NW of Greenville, California'' (Some (PyInt 1)) 1500000000000]"
proof -
  let ?a = "example_entry ''Pacific-Antarctic Ridge'' None 1500000060000"
  let ?b = "example_entry ''3km NW of Greenville, California'' (Some (PyInt 1)) 1500000000000"
  let ?w = "static_world [?a, ?b] []"
  let ?i = "init [''CA'', ''California''] ''earthquake''"
  have h1: "features_at ?w (usgs_url ?i) = Inr [?a, ?b]"
    by (simp add: static_world_def)
  have h2: "filter_type ?i = ''earthquake''"
    by (simp add: init_def)
  have h3: "filter_values ?i = [''CA'', ''California'']"
    by (simp add: init_def)
  note inst = text_match_accepts_by_type_and_region [OF h1 h2 h3]
  have pb: "place (properties ?b) = ''3km NW of Greenville'' @ CHR '','' # '' California''"
    by (simp add: example_entry_def)
  have nb: "CHR '','' \<notin> set '' California''"
    by simp
  have pa: "CHR '','' \<notin> set (place (properties ?a))"
    by (simp add: example_entry_def)
  have types: "type (properties ?a) = ''earthquake''" "type (properties ?b) = ''earthquake''"
    by (simp_all add: example_entry_def)
  have rb: "text_match ?i ?b = Inr True"
    by code_simp
  have ra: "text_match ?i ?a = Inr False"
    by code_simp
  from inst pb nb have "text_match ?i ?b =
      Inr (type (properties ?b) = ''earthquake'' \<and>
           trimmed_member '' California'' [''CA'', ''California''])"
    by blast
  with rb types have mb: "trimmed_member '' California'' [''CA'', ''California'']"
    by simp
  from inst pa have "text_match ?i ?a =
      Inr (type (properties ?a) = ''earthquake'' \<and>
           trimmed_member (place (properties ?a)) [''CA'', ''California''])"
    by blast
  with ra types have ma: "\<not> trimmed_member ''Pacific-Antarctic Ridge'' [''CA'', ''California'']"
    by (simp add: example_entry_def)
  from inst have "fst (filter_earthquakes ?w ?i) =
            Inr (filter (\<lambda>quakes. text_match ?i quakes = Inr True) (rev [?a, ?b]))"
    by blast
  then have kept: "fst (filter_earthquakes ?w ?i) = Inr [?b]"
    by (simp add: ra rb)
  show ?thesis
    by (intro conjI h1 h2 h3 pb nb mb pa ma kept)
qed

text \<open>
  The claim C1 as the specification words it fails: the place \<open>CA\<close> has no comma, hence
  no text after a last comma, and the entry is accepted.
\<close>

theorem text_match_counterexample:
  "CHR '','' \<notin> set (place (properties (example_entry ''CA'' None 1500000000000)))
   \<and> type (properties (example_entry ''CA'' None 1500000000000)) = ''earthquake''
   \<and> text_match (init [''CA'', ''California''] ''earthquake'')
        (example_entry ''CA'' None 1500000000000) = Inr True
   \<and> fst (filter_earthquakes (static_world [example_entry ''CA'' None 1500000000000] [])
           (init [''CA'', ''California''] ''earthquake''))
     = Inr [example_entry ''CA'' None 1500000000000]"
  by code_simp

text \<open>
  C2, amended: when the place of an entry has no comma, \<open>split(',')[-1]\<close> is the whole
  place, and the text-match strategy accepts the entry exactly when its type is the
  configured one and its whole place, stripped, is one of the filter values. An entry
  such as \<open>Pacific-Antarctic Ridge\<close> is excluded.
\<close>

theorem place_without_comma_matches_whole_place:
  assumes "CHR '','' \<notin> set (place (properties quakes))"
  shows "text_match self quakes =
           Inr (type (properties quakes) = filter_type self \<and>
                strip (place (properties quakes)) \<in> set (filter_values self))"
  using assms by (simp add: text_match_region after_last_comma_no_comma)

theorem place_without_comma_matches_whole_place_witness:
  "CHR '','' \<notin> set (place (properties (example_entry ''Pacific-Antarctic Ridge'' None 1500000000000)))
   \<and> text_match (init [''CA'', ''California''] ''earthquake'')
        (example_entry ''Pacific-Antarctic Ridge'' None 1500000000000) = Inr False"
  using place_without_comma_matches_whole_place
    [of "example_entry ''Pacific-Antarctic Ridge'' None 1500000000000" "init [''CA'', ''California''] ''earthquake''"]
  by (simp add: init_def example_entry_def strip_def isspace_def)

text \<open>
  The claim C2 as the specification words it fails: an earthquake whose place is the
  text \<open>California\<close>, without any comma, is accepted.
\<close>

theorem place_without_comma_counterexample:
  "CHR '','' \<notin> set (place (properties (example_entry ''California'' None 1500000000000)))
   \<and> text_match (init [''CA'', ''California''] ''earthquake'') (example_entry ''California'' None 1500000000000) = Inr True
   \<and> fst (filter_earthquakes (static_world [example_entry ''California'' None 1500000000000] [])
           (init [''CA'', ''California''] ''earthquake''))
     = Inr [example_entry ''California'' None 1500000000000]"
  by (simp add: filter_earthquakes_def text_match_def str_split_def getitem_def static_world_def
      init_def example_entry_def strip_def isspace_def)

text \<open>
  C9: whatever is passed to the constructor, the instance has the filter values
  \<open>['CA', 'California']\<close> and the filter type \<open>earthquake\<close>; two instances built
  with different arguments are equal, and so is every later call on them.
\<close>

theorem init_ignores_its_arguments:
  "filter_values (init fv ft) = [''CA'', ''California'']
   \<and> filter_type (init fv ft) = ''earthquake''
   \<and> init fv ft = init fv' ft'
   \<and> filter_earthquakes w (init fv ft) = filter_earthquakes w (init fv' ft')
   \<and> filter_earthquakes_by_coordinates w (init fv ft) = filter_earthquakes_by_coordinates w (init fv' ft')
   \<and> log_earthquakes w (init fv ft) out = log_earthquakes w (init fv' ft') out"
  by (simp add: init_def)

section \<open>The geocode filter and the printing loop\<close>

lemma get_location_frame [simp]:
  "get_location w (self\<lparr>filtered_earthquakes := xs\<rparr>) g = get_location w self g"
  by (simp add: get_location_def Let_def split: sum.splits)

lemma geocode_match_frame [simp]:
  "geocode_match w (self\<lparr>filtered_earthquakes := xs\<rparr>) = geocode_match w self"
  by (rule ext) (simp add: geocode_match_def split: sum.splits)

lemma coordinates_loop_prefix:
  "coordinates_loop w qs self = (r, self') \<Longrightarrow>
   \<exists>n \<le> length qs.
     self' = self\<lparr>filtered_earthquakes :=
                    filtered_earthquakes self @ filter (geocode_match w self) (take n qs)\<rparr>
     \<and> (\<forall>q \<in> set (take n qs). \<exists>l. get_location w self (coordinates (geometry q)) = Inr l)
     \<and> (case r of Inr u \<Rightarrow> n = length qs
         | Inl e \<Rightarrow> n < length qs \<and> get_location w self (coordinates (geometry (qs ! n))) = Inl e)"
proof (induction qs arbitrary: self)
  case Nil
  then show ?case by auto
next
  case (Cons q qs)
  show ?case
  proof (cases "get_location w self (coordinates (geometry q))")
    case (Inl e)
    with Cons.prems have "r = Inl e" "self' = self" by auto
    then show ?thesis using Inl by (intro exI [of _ 0]) auto
  next
    case (Inr l)
    define s1 where "s1 =
      (if type (properties q) = filter_type self \<and> l \<in> set (filter_values self)
       then self\<lparr>filtered_earthquakes := filtered_earthquakes self @ [q]\<rparr> else self)"
    have run: "coordinates_loop w qs s1 = (r, self')"
      using Cons.prems Inr by (simp add: s1_def)
    have same_loc: "get_location w s1 g = get_location w self g" for g
      by (simp add: s1_def)
    have same_match: "geocode_match w s1 = geocode_match w self"
      by (simp add: s1_def)
    have s1_list: "filtered_earthquakes s1 = filtered_earthquakes self @ filter (geocode_match w self) [q]"
      using Inr by (simp add: s1_def geocode_match_def)
    have s1_upd: "s1 = self\<lparr>filtered_earthquakes := filtered_earthquakes s1\<rparr>"
      by (simp add: s1_def)
    from Cons.IH [OF run] obtain n where n: "n \<le> length qs"
      and st: "self' = s1\<lparr>filtered_earthquakes :=
                    filtered_earthquakes s1 @ filter (geocode_match w s1) (take n qs)\<rparr>"
      and ok: "\<forall>q \<in> set (take n qs). \<exists>l. get_location w s1 (coordinates (geometry q)) = Inr l"
      and res: "(case r of Inr u \<Rightarrow> n = length qs
         | Inl e \<Rightarrow> n < length qs \<and> get_location w s1 (coordinates (geometry (qs ! n))) = Inl e)"
      by blast
    have st': "self' = self\<lparr>filtered_earthquakes :=
                    filtered_earthquakes self @ filter (geocode_match w self) (take (Suc n) (q # qs))\<rparr>"
      by (subst st, subst s1_upd) (simp add: s1_list same_match)
    show ?thesis
      using n st' ok res Inr
      by (intro exI [of _ "Suc n"]) (auto simp: same_loc split: sum.splits)
  qed
qed

lemma coordinates_loop_success:
  assumes "\<forall>q \<in> set qs. \<exists>l. get_location w self (coordinates (geometry q)) = Inr l"
  shows "coordinates_loop w qs self =
     (Inr (), self\<lparr>filtered_earthquakes :=
                    filtered_earthquakes self @ filter (geocode_match w self) qs\<rparr>)"
proof -
  obtain r self' where run: "coordinates_loop w qs self = (r, self')"
    by (cases "coordinates_loop w qs self")
  from coordinates_loop_prefix [OF run] obtain n where n: "n \<le> length qs"
    and st: "self' = self\<lparr>filtered_earthquakes :=
                    filtered_earthquakes self @ filter (geocode_match w self) (take n qs)\<rparr>"
    and res: "(case r of Inr u \<Rightarrow> n = length qs
         | Inl e \<Rightarrow> n < length qs \<and> get_location w self (coordinates (geometry (qs ! n))) = Inl e)"
    by blast
  show ?thesis
  proof (cases r)
    case (Inl e)
    with res have "n < length qs" "get_location w self (coordinates (geometry (qs ! n))) = Inl e"
      by auto
    with assms show ?thesis by (metis nth_mem sum.distinct(1))
  next
    case (Inr u)
    with res st run show ?thesis by simp
  qed
qed

lemma getitem_nat: "k < length xs \<Longrightarrow> getitem xs (int k) = Inr (xs ! k)"
  by (simp add: getitem_def)

lemma convert_time_error: "convert_time t = Inl e \<Longrightarrow> e = OutOfRange"
  by (auto simp: convert_time_def Let_def split: if_splits)

lemma log_loop_from:
  "k \<le> length (filtered_earthquakes self) \<Longrightarrow>
   log_loop [k..<length (filtered_earthquakes self)] self out =
     (if list_all converts (drop k (filtered_earthquakes self)) then Inr () else Inl OutOfRange,
      self\<lparr>filtered_earthquakes_log := filtered_earthquakes_log self @
         concat (map entry_line (takeWhile converts (drop k (filtered_earthquakes self))))\<rparr>,
      out @ concat (map (\<lambda>q. entry_line q @ [CHR 0x0A])
                     (takeWhile converts (drop k (filtered_earthquakes self)))))"
proof (induction "length (filtered_earthquakes self) - k" arbitrary: k self out)
  case 0
  then show ?case by simp
next
  case (Suc d)
  let ?xs = "filtered_earthquakes self"
  from Suc.hyps(2) have k: "k < length ?xs" by simp
  have idx: "[k..<length ?xs] = k # [Suc k..<length ?xs]"
    using k by (simp add: upt_conv_Cons)
  have dr: "drop k ?xs = ?xs ! k # drop (Suc k) ?xs"
    using k by (simp add: Cons_nth_drop_Suc)
  show ?case
  proof (cases "convert_time (time (properties (?xs ! k)))")
    case (Inl e)
    then have "e = OutOfRange" by (rule convert_time_error)
    with Inl show ?thesis
      by (simp add: idx dr getitem_nat [OF k] converts_def)
  next
    case (Inr t)
    define line where
      "line = log_line t (place (properties (?xs ! k))) (str_value (mag (properties (?xs ! k))))"
    define s1 where
      "s1 = self\<lparr>filtered_earthquakes_log := filtered_earthquakes_log self @ line\<rparr>"
    have same: "filtered_earthquakes s1 = ?xs" by (simp add: s1_def)
    have step: "log_loop [k..<length ?xs] self out =
                log_loop [Suc k..<length ?xs] s1 (out @ line @ [CHR 0x0A])"
      by (simp add: idx getitem_nat [OF k] Inr Let_def s1_def line_def)
    have conv: "converts (?xs ! k)" and ln: "entry_line (?xs ! k) = line"
      by (simp_all add: converts_def entry_line_def Inr line_def)
    have "d = length (filtered_earthquakes s1) - Suc k" "Suc k \<le> length (filtered_earthquakes s1)"
      using Suc.hyps(2) k by (simp_all add: same)
    note IH = Suc.hyps(1) [OF this, unfolded same]
    show ?thesis
      unfolding step IH dr using conv ln by (simp add: s1_def)
  qed
qed

lemma log_loop_all:
  "log_loop [0..<length (filtered_earthquakes self)] self out =
     (if list_all converts (filtered_earthquakes self) then Inr () else Inl OutOfRange,
      self\<lparr>filtered_earthquakes_log := filtered_earthquakes_log self @
         concat (map entry_line (takeWhile converts (filtered_earthquakes self)))\<rparr>,
      out @ concat (map (\<lambda>q. entry_line q @ [CHR 0x0A])
                     (takeWhile converts (filtered_earthquakes self))))"
  using log_loop_from [of 0 self out] by simp

lemma by_coordinates_success:
  assumes "features_at w (usgs_url self) = Inr feed"
    and "\<forall>q \<in> set feed. \<exists>l. get_location w self (coordinates (geometry q)) = Inr l"
  shows "filter_earthquakes_by_coordinates w self =
     (Inr (filtered_earthquakes self @ filter (geocode_match w self) (rev feed)),
      self\<lparr>filtered_earthquakes :=
             filtered_earthquakes self @ filter (geocode_match w self) (rev feed)\<rparr>)"
proof -
  have "\<forall>q \<in> set (rev feed). \<exists>l. get_location w self (coordinates (geometry q)) = Inr l"
    using assms(2) by simp
  from coordinates_loop_success [OF this] assms(1) show ?thesis
    by (simp add: filter_earthquakes_by_coordinates_def)
qed

lemma by_coordinates_returns:
  assumes "filter_earthquakes_by_coordinates w self = (Inr r, self')"
  shows "\<exists>feed. features_at w (usgs_url self) = Inr feed
     \<and> (\<forall>q \<in> set feed. \<exists>l. get_location w self (coordinates (geometry q)) = Inr l)"
proof (cases "features_at w (usgs_url self)")
  case (Inl e)
  with assms show ?thesis by (simp add: filter_earthquakes_by_coordinates_def)
next
  case (Inr feed)
  obtain r1 s1 where run: "coordinates_loop w (rev feed) self = (r1, s1)"
    by (cases "coordinates_loop w (rev feed) self")
  with assms Inr obtain u where "r1 = Inr u"
    by (cases r1) (simp_all add: filter_earthquakes_by_coordinates_def)
  with coordinates_loop_prefix [OF run]
  have "\<forall>q \<in> set (rev feed). \<exists>l. get_location w self (coordinates (geometry q)) = Inr l"
    by auto
  with Inr show ?thesis by simp
qed

lemma log_earthquakes_result:
  assumes "filter_earthquakes_by_coordinates w self = (Inr r, self')"
  shows "log_earthquakes w self out =
     (if list_all converts (filtered_earthquakes self') then Inr () else Inl OutOfRange,
      self'\<lparr>filtered_earthquakes_log := filtered_earthquakes_log self' @
         concat (map entry_line (takeWhile converts (filtered_earthquakes self')))\<rparr>,
      out @ concat (map (\<lambda>q. entry_line q @ [CHR 0x0A])
                     (takeWhile converts (filtered_earthquakes self'))))"
  using assms by (simp add: log_earthquakes_def log_loop_all)

lemma log_earthquakes_filter_error:
  assumes "filter_earthquakes_by_coordinates w self = (Inl e, self')"
  shows "log_earthquakes w self out = (Inl e, self', out)"
  using assms by (simp add: log_earthquakes_def)

text \<open>
  C10: \<open>_filter_earthquakes_by_coordinates\<close> appends to \<open>filtered_earthquakes\<close> and
  never clears it. When a call returns, the list is its contents before the call,
  unchanged, followed by the entries of the reversed feed that match; a second call on
  the same instance appends the same matches once more.
\<close>

theorem by_coordinates_appends_without_clearing:
  assumes "filter_earthquakes_by_coordinates w self = (Inr r, self')"
  shows "\<exists>feed. features_at w (usgs_url self) = Inr feed
     \<and> r = filtered_earthquakes self @ filter (geocode_match w self) (rev feed)
     \<and> filtered_earthquakes self' = r
     \<and> fst (filter_earthquakes_by_coordinates w self') =
         Inr (filtered_earthquakes self @ filter (geocode_match w self) (rev feed)
                @ filter (geocode_match w self) (rev feed))"
proof -
  from by_coordinates_returns [OF assms] obtain feed
    where feed: "features_at w (usgs_url self) = Inr feed"
      and ok: "\<forall>q \<in> set feed. \<exists>l. get_location w self (coordinates (geometry q)) = Inr l"
    by blast
  let ?m = "filter (geocode_match w self) (rev feed)"
  have first: "r = filtered_earthquakes self @ ?m"
       "self' = self\<lparr>filtered_earthquakes := filtered_earthquakes self @ ?m\<rparr>"
    using by_coordinates_success [OF feed ok] assms by simp_all
  have feed': "features_at w (usgs_url self') = Inr feed"
    using feed by (simp add: first(2))
  have ok': "\<forall>q \<in> set feed. \<exists>l. get_location w self' (coordinates (geometry q)) = Inr l"
    using ok by (simp add: first(2))
  have "fst (filter_earthquakes_by_coordinates w self') =
          Inr (filtered_earthquakes self' @ filter (geocode_match w self') (rev feed))"
    by (simp add: by_coordinates_success [OF feed' ok'])
  then have "fst (filter_earthquakes_by_coordinates w self') =
          Inr (filtered_earthquakes self @ ?m @ ?m)"
    by (simp add: first(2))
  with feed first show ?thesis by simp
qed

theorem by_coordinates_appends_without_clearing_witness:
  "fst (filter_earthquakes_by_coordinates
          (static_world [example_entry ''8km W of Cobb, CA'' (Some (PyInt 1)) 1500000060000,
                         example_entry ''3km NW of Greenville, California'' None 1500000000000]
             [''California''])
          (init [''CA'', ''California''] ''earthquake''))
     = Inr [example_entry ''3km NW of Greenville, California'' None 1500000000000,
            example_entry ''8km W of Cobb, CA'' (Some (PyInt 1)) 1500000060000]
   \<and> fst (filter_earthquakes_by_coordinates
          (static_world [example_entry ''8km W of Cobb, CA'' (Some (PyInt 1)) 1500000060000,
                         example_entry ''3km NW of Greenville, California'' None 1500000000000]
             [''California''])
          (snd (filter_earthquakes_by_coordinates
            (static_world [example_entry ''8km W of Cobb, CA'' (Some (PyInt 1)) 1500000060000,
                         example_entry ''3km NW of Greenville, California'' None 1500000000000]
               [''California''])
            (init [''CA'', ''California''] ''earthquake''))))
     = Inr [example_entry ''3km NW of Greenville, California'' None 1500000000000,
            example_entry ''8km W of Cobb, CA'' (Some (PyInt 1)) 1500000060000,
            example_entry ''3km NW of Greenville, California'' None 1500000000000,
            example_entry ''8km W of Cobb, CA'' (Some (PyInt 1)) 1500000060000]"
proof -
  let ?a = "example_entry ''8km W of Cobb, CA'' (Some (PyInt 1)) 1500000060000"
  let ?b = "example_entry ''3km NW of Greenville, California'' None 1500000000000"
  let ?w = "static_world [?a, ?b] [''California'']"
  let ?i = "init [''CA'', ''California''] ''earthquake''"
  have loc: "get_location ?w s (coordinates (geometry (example_entry p m t))) = Inr ''California''"
    for s p m t
    by (simp add: get_location_def getitem_def static_world_def example_entry_def)
  have match: "geocode_match ?w ?i (example_entry p m t)" for p m t
    by (simp add: geocode_match_def loc) (simp add: init_def example_entry_def)
  have run: "filter_earthquakes_by_coordinates ?w ?i =
        (Inr [?b, ?a], ?i\<lparr>filtered_earthquakes := [?b, ?a]\<rparr>)"
    by (simp add: filter_earthquakes_by_coordinates_def get_location_def getitem_def
          static_world_def example_entry_def init_def)
  from by_coordinates_appends_without_clearing [OF run]
  obtain feed where F1: "features_at ?w (usgs_url ?i) = Inr feed"
    and F2: "fst (filter_earthquakes_by_coordinates ?w (?i\<lparr>filtered_earthquakes := [?b, ?a]\<rparr>)) =
         Inr (filtered_earthquakes ?i @ filter (geocode_match ?w ?i) (rev feed)
                @ filter (geocode_match ?w ?i) (rev feed))"
    by blast
  have feed_eq: "feed = [?a, ?b]"
    using F1 by (simp add: static_world_def)
  have m: "filter (geocode_match ?w ?i) (rev feed) = [?b, ?a]"
    unfolding feed_eq by (simp add: match)
  have e: "filtered_earthquakes ?i = []"
    by (simp add: init_def)
  have again: "fst (filter_earthquakes_by_coordinates ?w (?i\<lparr>filtered_earthquakes := [?b, ?a]\<rparr>)) =
         Inr [?b, ?a, ?b, ?a]"
    using F2 unfolding m e by simp
  show ?thesis
    unfolding run snd_conv fst_conv again by simp
qed

section \<open>The two strategies compared\<close>

lemma text_match_True_iff:
  "(text_match self q = Inr True) =
     (type (properties q) = filter_type self \<and>
      strip (after_last_comma (place (properties q))) \<in> set (filter_values self))"
  by (simp add: text_match_region)




section \<open>The order of the output\<close>

lemma ascending_after_reverse_and_filter:
  assumes "sorted_wrt (\<lambda>a b. time (properties b) \<le> time (properties a)) feed"
  shows "sorted_wrt (\<lambda>a b. time (properties a) \<le> time (properties b)) (filter P (rev feed))"
proof -
  have "sorted_wrt (\<lambda>a b. time (properties a) \<le> time (properties b)) (rev feed)"
    using assms by (simp add: sorted_wrt_rev)
  then show ?thesis by (rule sorted_wrt_filter)
qed

text \<open>
  C3: both strategies reverse the feed and then filter it, without sorting. When the feed
  is ordered newest first, the result of the text-match strategy is in ascending order of
  time, and so is the result of the geocode strategy on an instance whose list is empty,
  as it is when \<open>log_earthquakes\<close> runs in the script; the lines are printed in the order
  of that list.
\<close>

theorem newest_first_feed_is_emitted_oldest_first:
  assumes "features_at w (usgs_url self) = Inr feed"
    and "sorted_wrt (\<lambda>a b. time (properties b) \<le> time (properties a)) feed"
  shows "fst (filter_earthquakes w self) = Inr (filter (\<lambda>q. text_match self q = Inr True) (rev feed))
     \<and> sorted_wrt (\<lambda>a b. time (properties a) \<le> time (properties b))
          (filter (\<lambda>q. text_match self q = Inr True) (rev feed))
     \<and> (\<forall>r self'. filtered_earthquakes self = [] \<and>
              filter_earthquakes_by_coordinates w self = (Inr r, self') \<longrightarrow>
            r = filter (geocode_match w self) (rev feed)
          \<and> sorted_wrt (\<lambda>a b. time (properties a) \<le> time (properties b)) r
          \<and> snd (snd (log_earthquakes w self out)) =
              out @ concat (map (\<lambda>q. entry_line q @ [CHR 0x0A]) (takeWhile converts r)))"
proof (intro conjI allI impI)
  show "fst (filter_earthquakes w self) = Inr (filter (\<lambda>q. text_match self q = Inr True) (rev feed))"
    by (simp add: filter_earthquakes_result [OF assms(1)] Let_def text_match_True_iff)
  show "sorted_wrt (\<lambda>a b. time (properties a) \<le> time (properties b))
          (filter (\<lambda>q. text_match self q = Inr True) (rev feed))"
    by (rule ascending_after_reverse_and_filter [OF assms(2)])
next
  fix r self'
  assume a: "filtered_earthquakes self = [] \<and>
              filter_earthquakes_by_coordinates w self = (Inr r, self')"
  then have run: "filter_earthquakes_by_coordinates w self = (Inr r, self')" by simp
  from by_coordinates_returns [OF run] assms(1)
  have ok: "\<forall>q \<in> set feed. \<exists>l. get_location w self (coordinates (geometry q)) = Inr l"
    by simp
  from by_coordinates_success [OF assms(1) ok] run a
  have r: "r = filter (geocode_match w self) (rev feed)" and s: "filtered_earthquakes self' = r"
    by auto
  show "r = filter (geocode_match w self) (rev feed)" by (rule r)
  show "sorted_wrt (\<lambda>a b. time (properties a) \<le> time (properties b)) r"
    unfolding r by (rule ascending_after_reverse_and_filter [OF assms(2)])
  show "snd (snd (log_earthquakes w self out)) =
              out @ concat (map (\<lambda>q. entry_line q @ [CHR 0x0A]) (takeWhile converts r))"
    by (simp add: log_earthquakes_result [OF run] s)
qed

theorem newest_first_feed_is_emitted_oldest_first_witness:
  "features_at (static_world example_feed [''California''])
       (usgs_url (init [''CA'', ''California''] ''earthquake'')) = Inr example_feed
   \<and> sorted_wrt (\<lambda>a b. time (properties b) \<le> time (properties a)) example_feed
   \<and> filtered_earthquakes (init [''CA'', ''California''] ''earthquake'') = []
   \<and> filter_earthquakes_by_coordinates (static_world example_feed [''California''])
        (init [''CA'', ''California''] ''earthquake'')
      = (Inr [greenville, ferndale],
         (init [''CA'', ''California''] ''earthquake'')\<lparr>filtered_earthquakes := [greenville, ferndale]\<rparr>)
   \<and> fst (filter_earthquakes (static_world example_feed [''California''])
        (init [''CA'', ''California''] ''earthquake'')) = Inr [greenville, ferndale]
   \<and> time (properties greenville) \<le> time (properties ferndale)
   \<and> snd (snd (log_earthquakes (static_world example_feed [''California''])
        (init [''CA'', ''California''] ''earthquake'') [])) =
      ''2017-07-13T20:43:37+0000 | 3km NW of Greenville, California | magnitude : 1'' @ [CHR 0x0A] @
      ''2017-07-13T22:09:53+0000 | 41km SW of Ferndale, California | magnitude : 2.76'' @ [CHR 0x0A]"
proof -
  let ?w = "static_world example_feed [''California'']"
  let ?i = "init [''CA'', ''California''] ''earthquake''"
  have h1: "features_at ?w (usgs_url ?i) = Inr example_feed"
    by (simp add: static_world_def)
  have h2: "sorted_wrt (\<lambda>a b. time (properties b) \<le> time (properties a)) example_feed"
    by (simp add: example_feed_def greenville_def ferndale_def example_entry_def)
  have e: "filtered_earthquakes ?i = []"
    by (simp add: init_def)
  have run: "filter_earthquakes_by_coordinates ?w ?i
      = (Inr [greenville, ferndale], ?i\<lparr>filtered_earthquakes := [greenville, ferndale]\<rparr>)"
    by code_simp
  have conv: "converts greenville" "converts ferndale"
    by code_simp+
  have lines: "entry_line greenville @ [CHR 0x0A] @ entry_line ferndale @ [CHR 0x0A] =
      ''2017-07-13T20:43:37+0000 | 3km NW of Greenville, California | magnitude : 1'' @ [CHR 0x0A] @
      ''2017-07-13T22:09:53+0000 | 41km SW of Ferndale, California | magnitude : 2.76'' @ [CHR 0x0A]"
    by code_simp
  note inst = newest_first_feed_is_emitted_oldest_first [OF h1 h2, of "[]"]
  from inst have tm: "fst (filter_earthquakes ?w ?i) = Inr (filter (\<lambda>q. text_match ?i q = Inr True) (rev example_feed))"
    by blast
  have acc: "text_match ?i greenville = Inr True" "text_match ?i ferndale = Inr True"
    by code_simp+
  have tm': "fst (filter_earthquakes ?w ?i) = Inr [greenville, ferndale]"
    unfolding tm by (simp add: example_feed_def acc)
  from inst e run have "sorted_wrt (\<lambda>a b. time (properties a) \<le> time (properties b)) [greenville, ferndale]"
    and out: "snd (snd (log_earthquakes ?w ?i [])) =
         [] @ concat (map (\<lambda>q. entry_line q @ [CHR 0x0A]) (takeWhile converts [greenville, ferndale]))"
    by blast+
  then have le: "time (properties greenville) \<le> time (properties ferndale)"
    by simp
  have out': "snd (snd (log_earthquakes ?w ?i [])) =
      ''2017-07-13T20:43:37+0000 | 3km NW of Greenville, California | magnitude : 1'' @ [CHR 0x0A] @
      ''2017-07-13T22:09:53+0000 | 41km SW of Ferndale, California | magnitude : 2.76'' @ [CHR 0x0A]"
    unfolding out using lines by (simp add: conv)
  show ?thesis
    by (intro conjI h1 h2 e run tm' le out')
qed

section \<open>The printed lines\<close>

lemma converts_line:
  "converts q \<Longrightarrow>
   \<exists>t. convert_time (time (properties q)) = Inr t \<and>
       entry_line q = t @ '' | '' @ place (properties q) @ '' | magnitude : '' @
                      str_value (mag (properties q))"
  by (cases "convert_time (time (properties q))")
     (simp_all add: converts_def entry_line_def log_line_def)

lemma takeWhile_all: "\<forall>q \<in> set r. P q \<Longrightarrow> takeWhile P r = r"
  by (simp only: takeWhile_eq_all_conv)

text \<open>
  C4, amended: \<open>str\<close> of an absent magnitude raises nothing, it is the text \<open>None\<close>.
  For every filtered entry whose magnitude is null the line is printed, with \<open>None\<close>
  as its magnitude, and a run whose filter returns and whose times all convert ends
  normally with one line for each filtered entry.
\<close>

theorem null_magnitude_is_printed_as_None:
  assumes "filter_earthquakes_by_coordinates w self = (Inr r, self')"
    and "\<forall>q \<in> set r. converts q"
  shows "fst (log_earthquakes w self out) = Inr ()
     \<and> snd (snd (log_earthquakes w self out)) =
         out @ concat (map (\<lambda>q. entry_line q @ [CHR 0x0A]) r)
     \<and> (\<forall>q \<in> set r. mag (properties q) = None \<longrightarrow>
          (\<exists>t. convert_time (time (properties q)) = Inr t \<and>
               entry_line q = t @ '' | '' @ place (properties q) @ '' | magnitude : None''))
     \<and> str_value None = ''None''"
proof -
  from by_coordinates_returns [OF assms(1)] obtain feed
    where feed: "features_at w (usgs_url self) = Inr feed"
      and ok: "\<forall>q \<in> set feed. \<exists>l. get_location w self (coordinates (geometry q)) = Inr l"
    by blast
  from by_coordinates_success [OF feed ok] assms(1)
  have s: "filtered_earthquakes self' = r" by auto
  have all: "list_all converts r"
    using assms(2) by (simp add: list_all_iff)
  have tw: "takeWhile converts r = r"
    using assms(2) by (rule takeWhile_all)
  have res: "log_earthquakes w self out =
     (Inr (), self'\<lparr>filtered_earthquakes_log := filtered_earthquakes_log self' @
         concat (map entry_line r)\<rparr>,
      out @ concat (map (\<lambda>q. entry_line q @ [CHR 0x0A]) r))"
    unfolding log_earthquakes_result [OF assms(1)] s tw using all by simp
  have none: "\<exists>t. convert_time (time (properties q)) = Inr t \<and>
               entry_line q = t @ '' | '' @ place (properties q) @ '' | magnitude : None''"
    if "q \<in> set r" "mag (properties q) = None" for q
    using converts_line [of q] that assms(2) by (auto simp: str_value_def)
  show ?thesis
    unfolding res using none by (simp add: str_value_def)
qed

theorem null_magnitude_is_printed_as_None_witness:
  "filter_earthquakes_by_coordinates
      (static_world [example_entry ''3km NW of Greenville, California'' None 1499978617000]
         [''California''])
      (init [''CA'', ''California''] ''earthquake'')
    = (Inr [example_entry ''3km NW of Greenville, California'' None 1499978617000],
       (init [''CA'', ''California''] ''earthquake'')
         \<lparr>filtered_earthquakes :=
            [example_entry ''3km NW of Greenville, California'' None 1499978617000]\<rparr>)
   \<and> converts (example_entry ''3km NW of Greenville, California'' None 1499978617000)
   \<and> fst (log_earthquakes
        (static_world [example_entry ''3km NW of Greenville, California'' None 1499978617000]
           [''California''])
        (init [''CA'', ''California''] ''earthquake'') []) = Inr ()
   \<and> entry_line (example_entry ''3km NW of Greenville, California'' None 1499978617000)
       = ''2017-07-13T20:43:37+0000 | 3km NW of Greenville, California | magnitude : None''"
proof -
  let ?a = "example_entry ''3km NW of Greenville, California'' None 1499978617000"
  let ?w = "static_world [?a] [''California'']"
  let ?i = "init [''CA'', ''California''] ''earthquake''"
  have run: "filter_earthquakes_by_coordinates ?w ?i = (Inr [?a], ?i\<lparr>filtered_earthquakes := [?a]\<rparr>)"
    by code_simp
  have conv: "converts ?a"
    by code_simp
  have t: "convert_time (time (properties ?a)) = Inr ''2017-07-13T20:43:37+0000''"
    by code_simp
  have m: "mag (properties ?a) = None" and p: "place (properties ?a) = ''3km NW of Greenville, California''"
    by (simp_all add: example_entry_def)
  have all: "\<forall>q \<in> set [?a]. converts q"
    using conv by simp
  note inst = null_magnitude_is_printed_as_None [OF run all, of "[]"]
  from inst have ok: "fst (log_earthquakes ?w ?i []) = Inr ()"
    by blast
  from inst m obtain t' where "convert_time (time (properties ?a)) = Inr t'"
    and "entry_line ?a = t' @ '' | '' @ place (properties ?a) @ '' | magnitude : None''"
    by auto
  with t p have line: "entry_line ?a =
      ''2017-07-13T20:43:37+0000 | 3km NW of Greenville, California | magnitude : None''"
    by simp
  show ?thesis
    by (intro conjI run conv ok line)
qed

text \<open>
  The claim C4 as the specification words it fails: for a feed whose only entry has a null
  magnitude the script ends normally and has printed the line of that entry.
\<close>

theorem null_magnitude_counterexample:
  "mag (properties (example_entry ''3km NW of Greenville, California'' None 1499978617000)) = None
   \<and> fst (main (static_world
              [example_entry ''3km NW of Greenville, California'' None 1499978617000]
              [''California''])) = Inr ()
   \<and> snd (snd (main (static_world
              [example_entry ''3km NW of Greenville, California'' None 1499978617000]
              [''California'']))) =
       ''2017-07-13T20:43:37+0000 | 3km NW of Greenville, California | magnitude : None'' @ [CHR 0x0A]"
  by code_simp



section \<open>Determinism\<close>

lemma coordinates_loop_same_lookups:
  "\<forall>q \<in> set qs. get_location w self (coordinates (geometry q)) =
                  get_location w' self (coordinates (geometry q)) \<Longrightarrow>
   coordinates_loop w qs self = coordinates_loop w' qs self"
proof (induction qs arbitrary: self)
  case Nil
  show ?case by simp
next
  case (Cons q qs)
  have here: "get_location w self (coordinates (geometry q)) =
              get_location w' self (coordinates (geometry q))"
    using Cons.prems by simp
  have later: "\<forall>q \<in> set qs. get_location w s (coordinates (geometry q)) =
                  get_location w' s (coordinates (geometry q))"
    if "s = self \<or> s = self\<lparr>filtered_earthquakes := filtered_earthquakes self @ [q]\<rparr>" for s
    using that Cons.prems by auto
  show ?case
  proof (cases "get_location w' self (coordinates (geometry q))")
    case (Inl e)
    with here show ?thesis by simp
  next
    case (Inr l)
    with here show ?thesis
      by (simp add: Cons.IH [OF later])
  qed
qed

text \<open>
  C8: the output is determined by the feed document and by the answers of the region
  service to the lookups of the feed's entries. Two networks that agree on these give the
  same result, the same instance and the same standard output, for both strategies and
  for the script as a whole.
\<close>

theorem same_documents_same_output:
  assumes "features_at w (usgs_url self) = features_at w' (usgs_url self)"
    and "\<forall>feed. features_at w (usgs_url self) = Inr feed \<longrightarrow>
           (\<forall>q \<in> set feed. get_location w self (coordinates (geometry q)) =
                            get_location w' self (coordinates (geometry q)))"
  shows "log_earthquakes w self out = log_earthquakes w' self out
     \<and> filter_earthquakes_by_coordinates w self = filter_earthquakes_by_coordinates w' self
     \<and> filter_earthquakes w self = filter_earthquakes w' self
     \<and> (self = init [''CA'', ''California''] ''earthquake'' \<longrightarrow> main w = main w')"
proof -
  have geo: "filter_earthquakes_by_coordinates w self = filter_earthquakes_by_coordinates w' self"
  proof (cases "features_at w (usgs_url self)")
    case (Inl e)
    moreover from Inl assms(1) have "features_at w' (usgs_url self) = Inl e" by simp
    ultimately show ?thesis by (simp add: filter_earthquakes_by_coordinates_def)
  next
    case (Inr feed)
    with assms(2) have "\<forall>q \<in> set (rev feed). get_location w self (coordinates (geometry q)) =
                            get_location w' self (coordinates (geometry q))"
      by simp
    then have loop: "coordinates_loop w (rev feed) self = coordinates_loop w' (rev feed) self"
      by (rule coordinates_loop_same_lookups)
    from Inr assms(1) have "features_at w' (usgs_url self) = Inr feed" by simp
    with Inr loop show ?thesis by (simp add: filter_earthquakes_by_coordinates_def)
  qed
  have by_text: "filter_earthquakes w self = filter_earthquakes w' self"
    using assms(1) by (simp add: filter_earthquakes_def)
  have logs: "log_earthquakes w self text_out = log_earthquakes w' self text_out" for text_out
    using geo by (simp add: log_earthquakes_def)
  have script: "main w = main w'" if "self = init [''CA'', ''California''] ''earthquake''"
    unfolding main_def that [symmetric] by (rule logs)
  show ?thesis
    using logs geo by_text script by blast
qed

theorem same_documents_same_output_witness:
  "features_at (static_world example_feed [''California''])
       (usgs_url (init [''CA'', ''California''] ''earthquake''))
     = features_at (one_request_world example_feed [''California''])
       (usgs_url (init [''CA'', ''California''] ''earthquake''))
   \<and> get_location (static_world example_feed [''California''])
        (init [''CA'', ''California''] ''earthquake'') (coordinates (geometry greenville))
     = get_location (one_request_world example_feed [''California''])
        (init [''CA'', ''California''] ''earthquake'') (coordinates (geometry greenville))
   \<and> get_location (static_world example_feed [''California''])
        (init [''CA'', ''California''] ''earthquake'') (coordinates (geometry ferndale))
     = get_location (one_request_world example_feed [''California''])
        (init [''CA'', ''California''] ''earthquake'') (coordinates (geometry ferndale))
   \<and> region_names_at (static_world example_feed [''California'']) []
     \<noteq> region_names_at (one_request_world example_feed [''California'']) []
   \<and> main (static_world example_feed [''California''])
     = main (one_request_world example_feed [''California''])"
proof -
  let ?w = "static_world example_feed [''California'']"
  let ?w' = "one_request_world example_feed [''California'']"
  let ?i = "init [''CA'', ''California''] ''earthquake''"
  have h1: "features_at ?w (usgs_url ?i) = features_at ?w' (usgs_url ?i)"
    by (simp add: static_world_def one_request_world_def)
  have g: "get_location ?w ?i (coordinates (geometry greenville)) =
           get_location ?w' ?i (coordinates (geometry greenville))"
    by code_simp
  have f: "get_location ?w ?i (coordinates (geometry ferndale)) =
           get_location ?w' ?i (coordinates (geometry ferndale))"
    by code_simp
  have feed: "features_at ?w (usgs_url ?i) = Inr example_feed"
    by (simp add: static_world_def)
  have h2: "\<forall>feed. features_at ?w (usgs_url ?i) = Inr feed \<longrightarrow>
           (\<forall>q \<in> set feed. get_location ?w ?i (coordinates (geometry q)) =
                            get_location ?w' ?i (coordinates (geometry q)))"
    unfolding feed using g f by (simp add: example_feed_def)
  have differ: "region_names_at ?w [] \<noteq> region_names_at ?w' []"
    by (simp add: static_world_def one_request_world_def)
  from same_documents_same_output [OF h1 h2, of "[]"]
  have same: "main ?w = main ?w'"
    by (simp add: main_def)
  show ?thesis
    by (intro conjI h1 g f differ same)
qed

section \<open>The time conversion: dates, digits and the instant\<close>

lemma time_of_day:
  fixes s :: int
  defines "r \<equiv> s mod 86400"
  shows "0 \<le> r div 3600 \<and> r div 3600 < 24 \<and> 0 \<le> r mod 3600 div 60 \<and> r mod 3600 div 60 < 60
     \<and> 0 \<le> r mod 60 \<and> r mod 60 < 60
     \<and> s div 86400 * 86400 + r div 3600 * 3600 + r mod 3600 div 60 * 60 + r mod 60 = s"
proof -
  have r: "0 \<le> r" "r < 86400" and s: "s = s div 86400 * 86400 + r"
    by (simp_all add: r_def)
  have h: "0 \<le> r div 3600" "r div 3600 < 24"
    using r by linarith+
  define t where "t = r mod 3600"
  have t: "0 \<le> t" "t < 3600" and rt: "r = r div 3600 * 3600 + t"
    by (simp_all add: t_def)
  have m: "0 \<le> t div 60" "t div 60 < 60"
    using t by linarith+
  have sec: "r mod 60 = t mod 60"
    unfolding t_def by (simp add: mod_mod_cancel)
  have ts: "t = t div 60 * 60 + t mod 60"
    by simp
  have s3: "0 \<le> t mod 60" "t mod 60 < 60"
    by simp_all
  show ?thesis
    unfolding sec t_def [symmetric] using h m s3 s rt ts by linarith
qed

lemma month_part:
  fixes n :: int and leap :: bool
  assumes n: "0 \<le> n" "n < 365"
  defines "month \<equiv> (n + 50) div 32"
  defines "preceding \<equiv> DAYS_BEFORE_MONTH ! nat month + (if 2 < month \<and> leap then 1 else 0)"
  defines "md \<equiv> (if n < preceding
                 then (month - 1,
                       n - (preceding - (DAYS_IN_MONTH ! nat (month - 1)
                            + (if month - 1 = 2 \<and> leap then 1 else 0))) + 1)
                 else (month, n - preceding + 1))"
  shows "1 \<le> fst md \<and> fst md \<le> 12 \<and> 1 \<le> snd md
     \<and> snd md \<le> (if fst md = 2 \<and> leap then 29 else DAYS_IN_MONTH ! nat (fst md))
     \<and> DAYS_BEFORE_MONTH ! nat (fst md) + (if 2 < fst md \<and> leap then 1 else 0) + snd md = n + 1"
proof -
  have lo: "32 * month \<le> n + 50" and hi: "n + 50 < 32 * month + 32"
    unfolding month_def by linarith+
  have "1 \<le> month" "month \<le> 12"
    using n lo hi by linarith+
  then have "month = 1 \<or> month = 2 \<or> month = 3 \<or> month = 4 \<or> month = 5 \<or> month = 6
    \<or> month = 7 \<or> month = 8 \<or> month = 9 \<or> month = 10 \<or> month = 11 \<or> month = 12"
    by arith
  then consider "month = 1" | "month = 2" | "month = 3" | "month = 4" | "month = 5" | "month = 6"
    | "month = 7" | "month = 8" | "month = 9" | "month = 10" | "month = 11" | "month = 12"
    by blast
  then show ?thesis
  proof cases
    case 1
    with n lo hi show ?thesis
      by (simp add: md_def preceding_def DAYS_BEFORE_MONTH_def DAYS_IN_MONTH_def)
  next
    case 2
    with n lo hi show ?thesis
      by (simp add: md_def preceding_def DAYS_BEFORE_MONTH_def DAYS_IN_MONTH_def)
  next
    case 3
    with n lo hi show ?thesis
      by (simp add: md_def preceding_def DAYS_BEFORE_MONTH_def DAYS_IN_MONTH_def)
  next
    case 4
    with n lo hi show ?thesis
      by (simp add: md_def preceding_def DAYS_BEFORE_MONTH_def DAYS_IN_MONTH_def)
  next
    case 5
    with n lo hi show ?thesis
      by (simp add: md_def preceding_def DAYS_BEFORE_MONTH_def DAYS_IN_MONTH_def)
  next
    case 6
    with n lo hi show ?thesis
      by (simp add: md_def preceding_def DAYS_BEFORE_MONTH_def DAYS_IN_MONTH_def)
  next
    case 7
    with n lo hi show ?thesis
      by (simp add: md_def preceding_def DAYS_BEFORE_MONTH_def DAYS_IN_MONTH_def)
  next
    case 8
    with n lo hi show ?thesis
      by (simp add: md_def preceding_def DAYS_BEFORE_MONTH_def DAYS_IN_MONTH_def)
  next
    case 9
    with n lo hi show ?thesis
      by (simp add: md_def preceding_def DAYS_BEFORE_MONTH_def DAYS_IN_MONTH_def)
  next
    case 10
    with n lo hi show ?thesis
      by (simp add: md_def preceding_def DAYS_BEFORE_MONTH_def DAYS_IN_MONTH_def)
  next
    case 11
    with n lo hi show ?thesis
      by (simp add: md_def preceding_def DAYS_BEFORE_MONTH_def DAYS_IN_MONTH_def)
  next
    case 12
    with n lo hi show ?thesis
      by (simp add: md_def preceding_def DAYS_BEFORE_MONTH_def DAYS_IN_MONTH_def)
  qed
qed

lemma succ_mod_zero:
  fixes y v k :: int
  assumes "0 \<le> v" "v < k" "y mod k = v"
  shows "((y + 1) mod k = 0) = (v = k - 1)"
proof -
  have step: "(y + 1) mod k = (v + 1) mod k"
    using assms(3) by (metis mod_add_left_eq)
  show ?thesis
  proof (cases "v = k - 1")
    case True
    then show ?thesis by (simp add: step)
  next
    case False
    with assms have "0 \<le> v + 1" "v + 1 < k" by linarith+
    then have "(v + 1) mod k = v + 1" by (rule mod_pos_pos_trivial)
    with False assms(1) show ?thesis by (simp add: step)
  qed
qed

lemma year_decomposition:
  fixes a b c e :: int
  assumes "0 \<le> b" "b \<le> 3" "0 \<le> c" "c \<le> 24" "0 \<le> e" "e \<le> 3"
  defines "y \<equiv> 400 * a + 100 * b + 4 * c + e"
  shows "days_before_year (y + 1) = 146097 * a + 36524 * b + 1461 * c + 365 * e"
    and "is_leap (y + 1) = (e = 3 \<and> (c \<noteq> 24 \<or> b = 3))"
proof -
  have d4: "y div 4 = 100 * a + 25 * b + c"
    unfolding y_def using assms(1-6) by linarith
  have d100: "y div 100 = 4 * a + b"
    unfolding y_def using assms(1-6) by linarith
  have d400: "y div 400 = a"
    unfolding y_def using assms(1-6) by linarith
  show "days_before_year (y + 1) = 146097 * a + 36524 * b + 1461 * c + 365 * e"
    by (simp add: days_before_year_def d4 d100 d400) (simp add: y_def)
  have r4: "y mod 4 = e" and r100: "y mod 100 = 4 * c + e" and r400: "y mod 400 = 100 * b + 4 * c + e"
    using d4 d100 d400 by (simp_all add: minus_mult_div_eq_mod [symmetric] y_def)
  have m4: "((y + 1) mod 4 = 0) = (e = 3)"
    using succ_mod_zero [OF _ _ r4] assms(1-6) by simp
  have "((y + 1) mod 100 = 0) = (4 * c + e = 99)"
    using succ_mod_zero [OF _ _ r100] assms(1-6) by simp
  moreover have "(4 * c + e = 99) = (c = 24 \<and> e = 3)"
    using assms(1-6) by (intro iffI conjI; (elim conjE)?; linarith)
  ultimately have m100: "((y + 1) mod 100 = 0) = (c = 24 \<and> e = 3)"
    by simp
  have "((y + 1) mod 400 = 0) = (100 * b + 4 * c + e = 399)"
    using succ_mod_zero [OF _ _ r400] assms(1-6) by simp
  moreover have "(100 * b + 4 * c + e = 399) = (b = 3 \<and> c = 24 \<and> e = 3)"
    using assms(1-6) by (intro iffI conjI; (elim conjE)?; linarith)
  ultimately have m400: "((y + 1) mod 400 = 0) = (b = 3 \<and> c = 24 \<and> e = 3)"
    by simp
  show "is_leap (y + 1) = (e = 3 \<and> (c \<noteq> 24 \<or> b = 3))"
    unfolding is_leap_def m4 m100 m400 by blast
qed

lemma ord2ymd_ymd2ord:
  assumes "ord2ymd ordinal = (y, m, d)"
  shows "ymd2ord y m d = ordinal \<and> 1 \<le> m \<and> m \<le> 12 \<and> 1 \<le> d \<and> d \<le> days_in_month y m
     \<and> (1 \<le> ordinal \<and> ordinal \<le> 3652059 \<longrightarrow> 1 \<le> y \<and> y \<le> 9999)
     \<and> (364878 \<le> ordinal \<longrightarrow> 1000 \<le> y)"
proof -
  define n0 where "n0 = ordinal - 1"
  define a where "a = n0 div 146097"
  define r where "r = n0 mod 146097"
  define b where "b = r div 36524"
  define r1 where "r1 = r mod 36524"
  define c where "c = r1 div 1461"
  define r2 where "r2 = r1 mod 1461"
  define e where "e = r2 div 365"
  define r3 where "r3 = r2 mod 365"
  have r: "0 \<le> r" "r < 146097" and n0: "n0 = 146097 * a + r"
    by (simp_all add: r_def a_def)
  have r1: "0 \<le> r1" "r1 < 36524" and r_eq: "r = 36524 * b + r1"
    by (simp_all add: r1_def b_def)
  have r2: "0 \<le> r2" "r2 < 1461" and r1_eq: "r1 = 1461 * c + r2"
    by (simp_all add: r2_def c_def)
  have r3: "0 \<le> r3" "r3 < 365" and r2_eq: "r2 = 365 * e + r3"
    by (simp_all add: r3_def e_def)
  have b: "0 \<le> b" "b \<le> 4"
    using r r1 r_eq by linarith+
  have c: "0 \<le> c" "c \<le> 24"
    using r1 r2 r1_eq by linarith+
  have e: "0 \<le> e" "e \<le> 4"
    using r2 r3 r2_eq by linarith+
  define leap where "leap = (e = 3 \<and> (c \<noteq> 24 \<or> b = 3))"
  define month where "month = (r3 + 50) div 32"
  define preceding where
    "preceding = DAYS_BEFORE_MONTH ! nat month + (if 2 < month \<and> leap then 1 else 0)"
  define md where "md = (if r3 < preceding
                 then (month - 1,
                       r3 - (preceding - (DAYS_IN_MONTH ! nat (month - 1)
                            + (if month - 1 = 2 \<and> leap then 1 else 0))) + 1)
                 else (month, r3 - preceding + 1))"
  have unfold: "ord2ymd ordinal =
      (if e = 4 \<or> b = 4 then (400 * a + 100 * b + 4 * c + e, 12, 31)
       else (400 * a + 100 * b + 4 * c + e + 1, fst md, snd md))"
    by (simp add: ord2ymd_def Let_def md_def preceding_def month_def leap_def
        r3_def [symmetric] e_def [symmetric] r2_def [symmetric] c_def [symmetric]
        r1_def [symmetric] b_def [symmetric] r_def [symmetric] a_def [symmetric]
        n0_def [symmetric])
  have ord: "ordinal = 146097 * a + 36524 * b + 1461 * c + 365 * e + r3 + 1"
    using n0 r_eq r1_eq r2_eq by (simp add: n0_def)
  have a0: "0 \<le> a" if "1 \<le> ordinal"
    using that n0 r unfolding n0_def by linarith
  show ?thesis
  proof (cases "b = 4")
    case True
    have "r1 = 0" using True r r1 r_eq by linarith
    then have "c = 0" "r2 = 0" using c r2 r1_eq by linarith+
    then have "e = 0" "r3 = 0" using e r3 r2_eq by linarith+
    have res: "y = 400 * a + 399 + 1" "m = 12" "d = 31"
      using assms unfold True \<open>c = 0\<close> \<open>e = 0\<close> by simp_all
    have dby: "days_before_year (400 * a + 399 + 1) = 146097 * a + 145731"
      using year_decomposition(1) [of 3 24 3 a] by simp
    have lp: "is_leap (400 * a + 399 + 1)"
      using year_decomposition(2) [of 3 24 3 a] by simp
    have range: "1 \<le> y \<and> y \<le> 9999" if "1 \<le> ordinal \<and> ordinal \<le> 3652059"
      using that a0 ord True \<open>c = 0\<close> \<open>e = 0\<close> \<open>r3 = 0\<close> unfolding res(1) by linarith
    have late: "1000 \<le> y" if "364878 \<le> ordinal"
      using that ord True \<open>c = 0\<close> \<open>e = 0\<close> \<open>r3 = 0\<close> unfolding res(1) by linarith
    have "ymd2ord y m d = ordinal \<and> 1 \<le> m \<and> m \<le> 12 \<and> 1 \<le> d \<and> d \<le> days_in_month y m"
      unfolding res using dby lp ord True \<open>c = 0\<close> \<open>e = 0\<close> \<open>r3 = 0\<close>
      by (simp add: ymd2ord_def days_before_month_def days_in_month_def
          DAYS_BEFORE_MONTH_def DAYS_IN_MONTH_def)
    with range late show ?thesis by blast
  next
    case False
    with b have b3: "b \<le> 3" by linarith
    show ?thesis
    proof (cases "e = 4")
      case True
      have "r3 = 0" using True r2 r3 r2_eq by linarith
      have "r2 = 1460" using True \<open>r3 = 0\<close> r2_eq by simp
      have c23: "c \<le> 23" using r1 r1_eq \<open>r2 = 1460\<close> by linarith
      have res: "y = 400 * a + 100 * b + 4 * c + 3 + 1" "m = 12" "d = 31"
        using assms unfold True by simp_all
      have dby: "days_before_year (400 * a + 100 * b + 4 * c + 3 + 1) =
            146097 * a + 36524 * b + 1461 * c + 1095"
        using year_decomposition(1) [of b c 3 a] b b3 c by simp
      have lp: "is_leap (400 * a + 100 * b + 4 * c + 3 + 1)"
        using year_decomposition(2) [of b c 3 a] b b3 c c23 by simp
      have range: "1 \<le> y \<and> y \<le> 9999" if "1 \<le> ordinal \<and> ordinal \<le> 3652059"
        using that a0 ord True \<open>r3 = 0\<close> b b3 c c23 unfolding res(1) by linarith
      have late: "1000 \<le> y" if "364878 \<le> ordinal"
        using that ord True \<open>r3 = 0\<close> b b3 c c23 unfolding res(1) by linarith
      have "ymd2ord y m d = ordinal \<and> 1 \<le> m \<and> m \<le> 12 \<and> 1 \<le> d \<and> d \<le> days_in_month y m"
        unfolding res using dby lp ord True \<open>r3 = 0\<close>
        by (simp add: ymd2ord_def days_before_month_def days_in_month_def
            DAYS_BEFORE_MONTH_def DAYS_IN_MONTH_def)
      with range late show ?thesis by blast
    next
      case e4: False
      with e have e3: "e \<le> 3" by linarith
      have res: "y = 400 * a + 100 * b + 4 * c + e + 1" "m = fst md" "d = snd md"
        using assms unfold False e4 by simp_all
      have dby: "days_before_year y = 146097 * a + 36524 * b + 1461 * c + 365 * e"
        unfolding res using year_decomposition(1) [of b c e a] b b3 c e e3 by simp
      have lp: "is_leap y = leap"
        unfolding res leap_def using year_decomposition(2) [of b c e a] b b3 c e e3 by simp
      from month_part [OF r3, of leap, folded month_def, folded preceding_def, folded md_def]
      have mp: "1 \<le> m" "m \<le> 12" "1 \<le> d"
          "d \<le> (if m = 2 \<and> leap then 29 else DAYS_IN_MONTH ! nat m)"
          "DAYS_BEFORE_MONTH ! nat m + (if 2 < m \<and> leap then 1 else 0) + d = r3 + 1"
        unfolding res by simp_all
      have "ymd2ord y m d = ordinal"
        using mp(5) dby ord by (simp add: ymd2ord_def days_before_month_def lp)
      moreover have "d \<le> days_in_month y m"
        using mp(4) by (simp add: days_in_month_def lp)
      moreover have "1 \<le> y \<and> y \<le> 9999" if "1 \<le> ordinal \<and> ordinal \<le> 3652059"
        using that a0 ord r3 b b3 c e e3 unfolding res(1) by linarith
      moreover have "1000 \<le> y" if "364878 \<le> ordinal"
        using that ord r3 b b3 c e e3 unfolding res(1) by linarith
      ultimately show ?thesis
        using mp(1-3) by blast
    qed
  qed
qed

lemma str_nat_1: "n < 10 \<Longrightarrow> str_nat n = [digit n]"
  by (subst str_nat.simps) simp

lemma str_nat_2: "10 \<le> n \<Longrightarrow> n < 100 \<Longrightarrow> str_nat n = [digit (n div 10), digit (n mod 10)]"
  by (subst str_nat.simps) (simp add: str_nat_1)

lemma str_nat_step: "10 \<le> n \<Longrightarrow> str_nat n = str_nat (n div 10) @ [digit (n mod 10)]"
  by (subst str_nat.simps) simp

lemma str_nat_3:
  assumes "100 \<le> n" "n < 1000"
  shows "str_nat n = [digit (n div 100), digit (n div 10 mod 10), digit (n mod 10)]"
proof -
  have "10 \<le> n div 10" "n div 10 < 100" using assms by linarith+
  then have "str_nat (n div 10) = [digit (n div 10 div 10), digit (n div 10 mod 10)]"
    by (rule str_nat_2)
  moreover have "n div 10 div 10 = n div 100"
    by (simp add: div_mult2_eq [symmetric])
  ultimately show ?thesis
    using assms by (simp add: str_nat_step)
qed

lemma str_nat_4:
  assumes "1000 \<le> n" "n < 10000"
  shows "str_nat n =
     [digit (n div 1000), digit (n div 100 mod 10), digit (n div 10 mod 10), digit (n mod 10)]"
proof -
  have "100 \<le> n div 10" "n div 10 < 1000" using assms by linarith+
  then have "str_nat (n div 10) =
      [digit (n div 10 div 100), digit (n div 10 div 10 mod 10), digit (n div 10 mod 10)]"
    by (rule str_nat_3)
  moreover have "n div 10 div 100 = n div 1000" "n div 10 div 10 = n div 100"
    by (simp_all add: div_mult2_eq [symmetric])
  ultimately show ?thesis
    using assms by (simp add: str_nat_step)
qed

lemma digit_0: "digit 0 = CHR ''0''"
  by (simp add: digit_def)

lemma two_digits:
  assumes "0 \<le> v" "v < 100"
  shows "zfill 2 (str_int v) = [digit (nat (v div 10)), digit (nat (v mod 10))]"
proof -
  define n where "n = nat v"
  have v: "v = int n" and n: "n < 100" using assms by (simp_all add: n_def)
  have "zfill 2 (str_nat n) = [digit (n div 10), digit (n mod 10)]"
    using n by (cases "n < 10") (simp_all add: zfill_def str_nat_1 str_nat_2 digit_0)
  then show ?thesis
    by (simp add: v str_int_def nat_div_distrib nat_mod_distrib)
qed

lemma four_digits:
  assumes "0 \<le> v" "v < 10000"
  shows "zfill 4 (str_int v) =
     [digit (nat (v div 1000)), digit (nat (v div 100 mod 10)), digit (nat (v div 10 mod 10)),
      digit (nat (v mod 10))]"
proof -
  define n where "n = nat v"
  have v: "v = int n" and n: "n < 10000" using assms by (simp_all add: n_def)
  consider "n < 10" | "10 \<le> n" "n < 100" | "100 \<le> n" "n < 1000" | "1000 \<le> n"
    by linarith
  then have "zfill 4 (str_nat n) =
     [digit (n div 1000), digit (n div 100 mod 10), digit (n div 10 mod 10), digit (n mod 10)]"
  proof cases
    case 1
    then show ?thesis by (simp add: zfill_def str_nat_1 digit_0 numeral_3_eq_3)
  next
    case 2
    then show ?thesis by (simp add: zfill_def str_nat_2 digit_0 numeral_2_eq_2)
  next
    case 3
    then show ?thesis by (simp add: zfill_def str_nat_3 digit_0)
  next
    case 4
    with n show ?thesis by (simp add: zfill_def str_nat_4)
  qed
  then show ?thesis
    by (simp add: v str_int_def nat_div_distrib nat_mod_distrib)
qed

lemma days_in_month_le_31:
  assumes "1 \<le> m" "m \<le> 12"
  shows "days_in_month y m \<le> 31"
proof -
  from assms have "m = 1 \<or> m = 2 \<or> m = 3 \<or> m = 4 \<or> m = 5 \<or> m = 6
    \<or> m = 7 \<or> m = 8 \<or> m = 9 \<or> m = 10 \<or> m = 11 \<or> m = 12"
    by arith
  then show ?thesis
    by (elim disjE) (simp_all add: days_in_month_def DAYS_IN_MONTH_def)
qed

lemma epoch_ordinal: "ymd2ord 1970 1 1 = 719163"
  by code_simp

lemma gmtime_fields:
  assumes "1 \<le> 719163 + seconds div 86400" "719163 + seconds div 86400 \<le> 3652059"
  shows "\<exists>year month day hour minute second.
       gmtime seconds = (year, month, day, hour, minute, second)
     \<and> 1 \<le> year \<and> year \<le> 9999 \<and> 1 \<le> month \<and> month \<le> 12
     \<and> 1 \<le> day \<and> day \<le> days_in_month year month
     \<and> 0 \<le> hour \<and> hour < 24 \<and> 0 \<le> minute \<and> minute < 60 \<and> 0 \<le> second \<and> second < 60
     \<and> utc_seconds year month day hour minute second = seconds
     \<and> (364878 \<le> 719163 + seconds div 86400 \<longrightarrow> 1000 \<le> year)"
proof -
  obtain y m d where o: "ord2ymd (719163 + seconds div 86400) = (y, m, d)"
    by (cases "ord2ymd (719163 + seconds div 86400)") auto
  from ord2ymd_ymd2ord [OF o] assms
  have date: "ymd2ord y m d = 719163 + seconds div 86400" "1 \<le> m" "m \<le> 12" "1 \<le> d"
      "d \<le> days_in_month y m" "1 \<le> y" "y \<le> 9999"
      "364878 \<le> 719163 + seconds div 86400 \<longrightarrow> 1000 \<le> y"
    by simp_all
  define r where "r = seconds mod 86400"
  have g: "gmtime seconds = (y, m, d, r div 3600, r mod 3600 div 60, r mod 60)"
    by (simp add: gmtime_def o r_def Let_def)
  note tod = time_of_day [of seconds, folded r_def]
  have "utc_seconds y m d (r div 3600) (r mod 3600 div 60) (r mod 60) = seconds"
    using tod by (simp add: utc_seconds_def date(1) epoch_ordinal)
  with g date tod show ?thesis
    by blast
qed

lemma year_digits:
  assumes "1 \<le> year" "year \<le> 9999"
  shows "str_int year = year_text year"
proof -
  define n where "n = nat year"
  have v: "year = int n" and n: "n < 10000" using assms by (simp_all add: n_def)
  consider "n < 10" | "10 \<le> n" "n < 100" | "100 \<le> n" "n < 1000" | "1000 \<le> n"
    by linarith
  then have "str_nat n = year_text (int n)"
  proof cases
    case 1
    then show ?thesis by (simp add: year_text_def str_nat_1)
  next
    case 2
    then show ?thesis
      by (simp add: year_text_def str_nat_2 nat_div_distrib nat_mod_distrib)
  next
    case 3
    then show ?thesis
      by (simp add: year_text_def str_nat_3 nat_div_distrib nat_mod_distrib)
  next
    case 4
    with n show ?thesis
      by (simp add: year_text_def str_nat_4 nat_div_distrib nat_mod_distrib)
  qed
  then show ?thesis
    by (simp add: v str_int_def)
qed

lemma strftime_utc_text:
  assumes "1 \<le> year" "year \<le> 9999" "1 \<le> month" "month \<le> 12" "1 \<le> day" "day \<le> 31"
    "0 \<le> hour" "hour < 24" "0 \<le> minute" "minute < 60" "0 \<le> second" "second < 60"
  shows "strftime (year, month, day, hour, minute, second) =
         utc_text year month day hour minute second"
  using assms by (simp add: strftime_def utc_text_def year_digits [of year] two_digits)

lemma convert_time_range:
  "(\<exists>s. convert_time unix_time = Inr s) =
     (- 62135596800000 \<le> unix_time \<and> unix_time \<le> 253402300799999)"
proof -
  define days where "days = unix_time div 1000 div 86400"
  have days: "days = unix_time div 86400000"
    by (simp add: days_def div_mult2_eq [symmetric])
  have lower: "(1 \<le> 719163 + days) = (- 62135596800000 \<le> unix_time)"
    unfolding days by (intro iffI; linarith)
  have upper: "(719163 + days \<le> 3652059) = (unix_time \<le> 253402300799999)"
    unfolding days by (intro iffI; linarith)
  have "(\<exists>s. convert_time unix_time = Inr s) = (1 \<le> 719163 + days \<and> 719163 + days \<le> 3652059)"
    by (auto simp: convert_time_def Let_def days_def)
  then show ?thesis
    unfolding lower upper .
qed

lemma convert_time_late:
  fixes unix_time :: int
  assumes "- 30610224000000 \<le> unix_time"
  shows "364878 \<le> 719163 + unix_time div 1000 div 86400"
proof -
  have "unix_time div 1000 div 86400 = unix_time div 86400000"
    by (simp add: div_mult2_eq [symmetric])
  then show ?thesis
    using assms by linarith
qed

text \<open>
  C6, amended: \<open>_convert_time\<close> returns a text exactly for the timestamps from
  -62135596800000 to 253402300799999, the years 1 to 9999, and raises for the others. The
  text is made of the calendar fields of the instant \<open>unix_time div 1000\<close> seconds
  after 1970-01-01T00:00:00 UTC, the year without leading zeros, followed by \<open>+0000\<close>.
  From the timestamp -30610224000000 on, the year 1000, the year has four digits and
  the text has the 24 characters of the form \<open>YYYY-MM-DDTHH:MM:SS+0000\<close>. The timestamp
  1500000000000 gives \<open>2017-07-14T02:40:00+0000\<close>.
\<close>

theorem convert_time_renders_utc_instant:
  "convert_time 1500000000000 = Inr ''2017-07-14T02:40:00+0000''
   \<and> (\<forall>unix_time.
        (\<exists>s. convert_time unix_time = Inr s) =
        (- 62135596800000 \<le> unix_time \<and> unix_time \<le> 253402300799999))
   \<and> (\<forall>unix_time s. convert_time unix_time = Inr s \<longrightarrow>
        (\<exists>year month day hour minute second.
            s = utc_text year month day hour minute second
          \<and> 1 \<le> year \<and> year \<le> 9999 \<and> 1 \<le> month \<and> month \<le> 12
          \<and> 1 \<le> day \<and> day \<le> days_in_month year month
          \<and> 0 \<le> hour \<and> hour < 24 \<and> 0 \<le> minute \<and> minute < 60
          \<and> 0 \<le> second \<and> second < 60
          \<and> utc_seconds year month day hour minute second = unix_time div 1000
          \<and> (- 30610224000000 \<le> unix_time \<longrightarrow> 1000 \<le> year \<and> length s = 24)))"
proof (intro conjI allI impI)
  show "convert_time 1500000000000 = Inr ''2017-07-14T02:40:00+0000''"
    by code_simp
next
  fix unix_time
  show "(\<exists>s. convert_time unix_time = Inr s) =
        (- 62135596800000 \<le> unix_time \<and> unix_time \<le> 253402300799999)"
    by (rule convert_time_range)
next
  fix unix_time s
  assume run: "convert_time unix_time = Inr s"
  define seconds where "seconds = unix_time div 1000"
  from run have range: "1 \<le> 719163 + seconds div 86400" "719163 + seconds div 86400 \<le> 3652059"
    and s: "s = strftime (gmtime seconds)"
    by (auto simp: convert_time_def Let_def seconds_def split: if_splits)
  from gmtime_fields [OF range] obtain year month day hour minute second
    where g: "gmtime seconds = (year, month, day, hour, minute, second)"
      and f: "1 \<le> year" "year \<le> 9999" "1 \<le> month" "month \<le> 12"
        "1 \<le> day" "day \<le> days_in_month year month"
        "0 \<le> hour" "hour < 24" "0 \<le> minute" "minute < 60" "0 \<le> second" "second < 60"
      and u: "utc_seconds year month day hour minute second = seconds"
      and late: "364878 \<le> 719163 + seconds div 86400 \<longrightarrow> 1000 \<le> year"
    by blast
  have "day \<le> 31"
    using f(6) days_in_month_le_31 [OF f(3,4), of year] by linarith
  with f have shape: "s = utc_text year month day hour minute second"
    unfolding s g by (intro strftime_utc_text)
  have four: "1000 \<le> year \<and> length s = 24" if "- 30610224000000 \<le> unix_time"
  proof -
    from convert_time_late [OF that] late have y: "1000 \<le> year"
      by (simp add: seconds_def)
    then have "length s = 24"
      unfolding shape by (simp add: utc_text_def year_text_def)
    with y show ?thesis by simp
  qed
  show "\<exists>year month day hour minute second.
            s = utc_text year month day hour minute second
          \<and> 1 \<le> year \<and> year \<le> 9999 \<and> 1 \<le> month \<and> month \<le> 12
          \<and> 1 \<le> day \<and> day \<le> days_in_month year month
          \<and> 0 \<le> hour \<and> hour < 24 \<and> 0 \<le> minute \<and> minute < 60
          \<and> 0 \<le> second \<and> second < 60
          \<and> utc_seconds year month day hour minute second = unix_time div 1000
          \<and> (- 30610224000000 \<le> unix_time \<longrightarrow> 1000 \<le> year \<and> length s = 24)"
    using shape f u four unfolding seconds_def by blast
qed

theorem convert_time_renders_utc_instant_witness:
  "convert_time 1500000000000 = Inr ''2017-07-14T02:40:00+0000''
   \<and> - 62135596800000 \<le> (1500000000000 :: int) \<and> (1500000000000 :: int) \<le> 253402300799999
   \<and> - 30610224000000 \<le> (1500000000000 :: int)
   \<and> length ''2017-07-14T02:40:00+0000'' = 24
   \<and> utc_text 2017 7 14 2 40 0 = ''2017-07-14T02:40:00+0000''
   \<and> utc_seconds 2017 7 14 2 40 0 = 1500000000000 div 1000
   \<and> convert_time (- 1) = Inr (utc_text 1969 12 31 23 59 59)
   \<and> utc_seconds 1969 12 31 23 59 59 = - 1 div 1000"
proof -
  note inst = convert_time_renders_utc_instant
  from inst have run: "convert_time 1500000000000 = Inr ''2017-07-14T02:40:00+0000''"
    by blast
  have late: "- 30610224000000 \<le> (1500000000000 :: int)"
    by simp
  from inst run late have len: "length ''2017-07-14T02:40:00+0000'' = 24"
    by blast
  have shape: "utc_text 2017 7 14 2 40 0 = ''2017-07-14T02:40:00+0000''"
    by code_simp
  have instant: "utc_seconds 2017 7 14 2 40 0 = 1500000000000 div 1000"
    by code_simp
  have before: "convert_time (- 1) = Inr (utc_text 1969 12 31 23 59 59)"
    by code_simp
  have before_instant: "utc_seconds 1969 12 31 23 59 59 = - 1 div 1000"
    by code_simp
  show ?thesis
    by (intro conjI run late len shape instant before before_instant) simp_all
qed

text \<open>
  The claim C6 as the specification words it fails: the last second of the year 999 is
  written with a year of three digits, in 23 characters, and the millisecond after the
  year 9999 is not converted at all.
\<close>

theorem convert_time_counterexample:
  "convert_time (- 30610224001000) = Inr ''999-12-31T23:59:59+0000''
   \<and> length ''999-12-31T23:59:59+0000'' = 23
   \<and> convert_time 253402300800000 = Inl OutOfRange"
  by code_simp

end
